theory Spec2Isabelle
  imports Main
begin

section \<open>JavaScript values, errors and promises\<close>

text \<open>
  The values the library handles at run time are JSON-like: the human-readable form
  (\<^verbatim>\<open>toHuman()\<close>) of chain data, \<^verbatim>\<open>undefined\<close> for a variable that was never
  assigned or an argument that is absent. The TypeScript casts (\<^verbatim>\<open>as string\<close>) do
  nothing at run time, so a field declared \<^verbatim>\<open>string\<close> may hold any of these.
\<close>

datatype js_value =
    JUndefined
  | JNull
  | JBool bool
  | JNumber int
  | JString string
  | JArray "js_value list"
  | JObject "(string \<times> js_value) list"

definition typeof :: "js_value \<Rightarrow> string" where
  "typeof v =
     (case v of
        JUndefined \<Rightarrow> ''undefined''
      | JNull \<Rightarrow> ''object''
      | JBool _ \<Rightarrow> ''boolean''
      | JNumber _ \<Rightarrow> ''number''
      | JString _ \<Rightarrow> ''string''
      | JArray _ \<Rightarrow> ''object''
      | JObject _ \<Rightarrow> ''object'')"

text \<open>\<^verbatim>\<open>new Error(message)\<close>; the errors of the ledger client are errors too.\<close>

datatype error = Error string

text \<open>
  A promise is pending until it is settled; \<^verbatim>\<open>resolve\<close> and \<^verbatim>\<open>reject\<close> settle a
  pending promise and do nothing to a settled one.
\<close>

datatype 'a promise = Pending | Fulfilled 'a | Rejected error

definition resolve :: "'a \<Rightarrow> 'a promise \<Rightarrow> 'a promise" where
  "resolve v p = (case p of Pending \<Rightarrow> Fulfilled v | _ \<Rightarrow> p)"

definition reject :: "error \<Rightarrow> 'a promise \<Rightarrow> 'a promise" where
  "reject e p = (case p of Pending \<Rightarrow> Rejected e | _ \<Rightarrow> p)"

section \<open>Data model\<close>

record StoredResource =
  hash :: string
  cid :: js_value


text \<open>
  \<^verbatim>\<open>OrderStatus\<close>: the snapshot of an order that \<^verbatim>\<open>getOrderStatus\<close> returns;
  \<^verbatim>\<open>replicas\<close> is an object keyed by the replica holder.
\<close>

record Replica =
  who :: string
  valid_at :: string
  anchor :: string
  is_reported :: bool
  created_at :: "string option"

record OrderStatus =
  file_size :: string
  spower :: string
  expired_at :: string
  calculated_at :: string
  amount :: string
  prepaid :: string
  reported_replica_count :: string
  remaining_paid_count :: string
  replicas :: "(string \<times> Replica) list"

section \<open>The ledger client\<close>

text \<open>
  The chain client (\<^verbatim>\<open>ApiPromise\<close>) is an external collaborator. A transaction stands
  for \<^verbatim>\<open>tx.method\<close>: the pallet, the call name (\<^verbatim>\<open>tx.method.method\<close>) and the
  arguments by name, as \<^verbatim>\<open>tx.method.toHuman()["args"]\<close> shows them.
\<close>

record extrinsic =
  tx_section :: string
  tx_method :: string
  args :: "(string \<times> js_value) list"

text \<open>\<^verbatim>\<open>tx.method.toHuman()["args"]?.name\<close>: an absent argument reads \<^verbatim>\<open>undefined\<close>.\<close>

definition human_arg :: "extrinsic \<Rightarrow> string \<Rightarrow> js_value" where
  "human_arg tx name = (case map_of (args tx) name of None \<Rightarrow> JUndefined | Some v \<Rightarrow> v)"

text \<open>
  \<^verbatim>\<open>api.tx.market.placeStorageOrder(cid, size, tips, memo)\<close> and
  \<^verbatim>\<open>api.tx.market.addPrepaid(cid, amount)\<close>. The argument names label the positions;
  \<^verbatim>\<open>cid\<close> is the name \<^verbatim>\<open>addPrepaidAmountRaw\<close> reads.
\<close>

definition market_placeStorageOrder :: "string \<Rightarrow> int \<Rightarrow> int \<Rightarrow> string \<Rightarrow> extrinsic" where
  "market_placeStorageOrder fileCid fileSize tips memo =
     \<lparr>tx_section = ''market'', tx_method = ''placeStorageOrder'',
      args = [(''cid'', JString fileCid), (''size'', JNumber fileSize),
              (''tips'', JNumber tips), (''memo'', JString memo)]\<rparr>"

definition market_addPrepaid :: "string \<Rightarrow> int \<Rightarrow> extrinsic" where
  "market_addPrepaid fileCid amt =
     \<lparr>tx_section = ''market'', tx_method = ''addPrepaid'',
      args = [(''cid'', JString fileCid), (''amount'', JNumber amt)]\<rparr>"

text \<open>
  A status update of a broadcast transaction (\<^verbatim>\<open>SubmittableResult\<close>): the status, the
  events of the transaction (name and data, each datum in its human form) and the
  transaction hash (\<^verbatim>\<open>txHash.toHex()\<close>). \<^verbatim>\<open>status.toHuman()\<close> of an included
  transaction is \<^verbatim>\<open>{InBlock: blockHash}\<close>.
\<close>

datatype ExtrinsicStatus =
    Future
  | Ready
  | Broadcast "string list"
  | InBlock string
  | Retracted string
  | FinalityTimeout string
  | Finalized string
  | Usurped string
  | Dropped
  | Invalid

record event =
  event_method :: string
  event_data :: "js_value list"

record SubmittableResult =
  status :: ExtrinsicStatus
  events :: "event list"
  txHash :: string

definition isInBlock :: "SubmittableResult \<Rightarrow> bool" where
  "isInBlock result = (case status result of InBlock _ \<Rightarrow> True | _ \<Rightarrow> False)"

text \<open>
  What the ledger client answers. \<^verbatim>\<open>api.isReadyOrError\<close> is a promise (pending when
  the client never gets ready); \<^verbatim>\<open>api.tx(payload)\<close> decodes a payload and throws on a
  malformed one; \<^verbatim>\<open>tx.toHex()\<close> encodes; a broadcast is answered either by the error
  its promise rejects with or by the status updates handed to the callback, in order
  (the ones observed so far); \<^verbatim>\<open>filesV2\<close> is the storage query behind
  \<^verbatim>\<open>getOrderStatus\<close>, \<^verbatim>\<open>None\<close> standing for \<^verbatim>\<open>null\<close>.
\<close>

record 'p ledger =
  api_isReadyOrError :: "unit promise"
  api_tx :: "'p \<Rightarrow> error + extrinsic"
  toHex :: "extrinsic \<Rightarrow> 'p"
  tx_send :: "extrinsic \<Rightarrow> error + SubmittableResult list"
  tx_signAndSend :: "extrinsic \<Rightarrow> error + SubmittableResult list"
  filesV2 :: "string \<Rightarrow> OrderStatus option promise"

text \<open>The calls made on the ledger client, in order, as a recording transport lists them.\<close>

datatype ledger_call =
    Build extrinsic
  | Send extrinsic
  | SignAndSend extrinsic
  | Query string

text \<open>
  An asynchronous operation yields the promise it returns and the ledger calls it made.
  \<^verbatim>\<open>await\<close> continues with the value of a fulfilled promise; a rejection is thrown
  out of the enclosing \<^verbatim>\<open>async\<close> function, and a promise that stays pending leaves
  the function suspended for good.
\<close>

type_synonym 'a async = "'a promise \<times> ledger_call list"

definition await :: "'a async \<Rightarrow> ('a \<Rightarrow> 'b async) \<Rightarrow> 'b async" where
  "await m k =
     (case fst m of
        Pending \<Rightarrow> (Pending, snd m)
      | Rejected e \<Rightarrow> (Rejected e, snd m)
      | Fulfilled v \<Rightarrow> (let r = k v in (fst r, snd m @ snd r)))"

section \<open>Transaction submitter\<close>

subsection \<open>The status callbacks\<close>

text \<open>\<^verbatim>\<open>data.pop()?.toHuman()\<close>: the last datum of an event, \<^verbatim>\<open>undefined\<close> when it has none.\<close>

definition pop_toHuman :: "js_value list \<Rightarrow> js_value" where
  "pop_toHuman d = (if d = [] then JUndefined else last d)"

text \<open>
  One turn of \<^verbatim>\<open>events.forEach\<close> in the place-order callback. The state is the
  local variable \<^verbatim>\<open>cid\<close> and the promise; \<^verbatim>\<open>h\<close> is \<^verbatim>\<open>txHash.toHex()\<close>.
\<close>

definition scan_event ::
  "string \<Rightarrow> js_value \<times> StoredResource promise \<Rightarrow> event \<Rightarrow> js_value \<times> StoredResource promise"
where
  "scan_event h st ev =
     (let c = (if event_method ev = ''FileSuccess'' then pop_toHuman (event_data ev) else fst st);
          p = (if event_method ev = ''ExtrinsicSuccess''
               then resolve \<lparr>hash = h, cid = c\<rparr> (snd st) else snd st)
      in (c, p))"

text \<open>
  The callback of a place-order broadcast: it acts on an included update only, with
  \<^verbatim>\<open>cid\<close> declared afresh (\<^verbatim>\<open>undefined\<close>) for every update.
\<close>

definition placeOrderCallback ::
  "SubmittableResult \<Rightarrow> StoredResource promise \<Rightarrow> StoredResource promise"
where
  "placeOrderCallback result p =
     (if isInBlock result
      then snd (foldl (scan_event (txHash result)) (JUndefined, p) (events result))
      else p)"

text \<open>
  The callback of an add-prepaid broadcast: on an included update it resolves with the
  \<^verbatim>\<open>InBlock\<close> field of \<^verbatim>\<open>status.toHuman()\<close> and the content identifier \<^verbatim>\<open>c\<close>.
\<close>

definition addPrepaidCallback ::
  "js_value \<Rightarrow> SubmittableResult \<Rightarrow> StoredResource promise \<Rightarrow> StoredResource promise"
where
  "addPrepaidCallback c result p =
     (case status result of
        InBlock blockHash \<Rightarrow> resolve \<lparr>hash = blockHash, cid = c\<rparr> p
      | _ \<Rightarrow> p)"

text \<open>
  \<^verbatim>\<open>new Promise((resolve, reject) => tx.send(callback).catch(reject))\<close>: the promise
  after the broadcast was answered by \<^verbatim>\<open>outcome\<close>.
\<close>

definition deliver ::
  "(SubmittableResult \<Rightarrow> StoredResource promise \<Rightarrow> StoredResource promise) \<Rightarrow>
   error + SubmittableResult list \<Rightarrow> StoredResource promise"
where
  "deliver callback outcome =
     (case outcome of
        Inl e \<Rightarrow> reject e Pending
      | Inr results \<Rightarrow> foldl (\<lambda>p result. callback result p) Pending results)"

subsection \<open>Raw submission: \<^verbatim>\<open>CrustNoSeed\<close>\<close>

definition isReadyOrError :: "'p ledger \<Rightarrow> unit async" where
  "isReadyOrError L = (api_isReadyOrError L, [])"

definition placeStorageOrderRaw :: "'p ledger \<Rightarrow> 'p \<Rightarrow> StoredResource async" where
  "placeStorageOrderRaw L extrinsic =
     await (isReadyOrError L) (\<lambda>_.
       case api_tx L extrinsic of
         Inl e \<Rightarrow> (Rejected e, [])
       | Inr tx \<Rightarrow>
           if tx_method tx = ''placeStorageOrder''
           then (deliver placeOrderCallback (tx_send L tx), [Send tx])
           else (reject (Error ''Only Support placeStorageOrder method'') Pending, []))"

definition addPrepaidAmountRaw :: "'p ledger \<Rightarrow> 'p \<Rightarrow> StoredResource async" where
  "addPrepaidAmountRaw L extrinsic =
     await (isReadyOrError L) (\<lambda>_.
       case api_tx L extrinsic of
         Inl e \<Rightarrow> (Rejected e, [])
       | Inr tx \<Rightarrow>
           (let c = human_arg tx ''cid'' in
            if typeof c \<noteq> ''string''
            then (reject (Error ''Not Valid Cid'') Pending, [])
            else if tx_method tx = ''addPrepaid''
            then (deliver (addPrepaidCallback c) (tx_send L tx), [Send tx])
            else (reject (Error ''Only Support addPrepaid method'') Pending, [])))"

definition getOrderStatus :: "'p ledger \<Rightarrow> string \<Rightarrow> OrderStatus option async" where
  "getOrderStatus L fileCid =
     await (isReadyOrError L) (\<lambda>_.
       await (filesV2 L fileCid, [Query fileCid]) (\<lambda>res. (Fulfilled res, [])))"

subsection \<open>Signing submission: \<^verbatim>\<open>Crust\<close> of \<^verbatim>\<open>src/index.ts\<close>\<close>

datatype entry_type = directory | others

record entry =
  entry_cid :: string
  entry_size :: int
  entry_type :: entry_type
  entry_tips :: "int option"

definition Crust_placeStorageOrder :: "'p ledger \<Rightarrow> entry \<Rightarrow> StoredResource async" where
  "Crust_placeStorageOrder L entry =
     await (isReadyOrError L) (\<lambda>_.
       let fileCid = entry_cid entry;
           fileSize = entry_size entry;
           memo = (if entry_type entry = directory then ''folder'' else '''');
           tx = market_placeStorageOrder fileCid fileSize
                  (case entry_tips entry of None \<Rightarrow> 0 | Some t \<Rightarrow> t) memo
       in (deliver placeOrderCallback (tx_signAndSend L tx), [Build tx, SignAndSend tx]))"

definition Crust_addPrepaidAmount :: "'p ledger \<Rightarrow> string \<Rightarrow> int \<Rightarrow> StoredResource async" where
  "Crust_addPrepaidAmount L fileCid amt =
     await (isReadyOrError L) (\<lambda>_.
       let tx = market_addPrepaid fileCid amt
       in (deliver (addPrepaidCallback (JString fileCid)) (tx_signAndSend L tx),
           [Build tx, SignAndSend tx]))"

subsection \<open>Signing submission with a stored-order check: \<^verbatim>\<open>Crust\<close> over a \<^verbatim>\<open>UnixFSEntry\<close>\<close>

text \<open>
  The entry of this variant is picked from a \<^verbatim>\<open>UnixFSEntry\<close>; \<^verbatim>\<open>fs_cid\<close> is
  \<^verbatim>\<open>entry.cid.toV1().toString()\<close> and \<^verbatim>\<open>tips\<close> is a parameter of its own that
  defaults to 0.
\<close>

record unixfs_entry =
  fs_cid :: string
  fs_size :: int
  fs_type :: string

definition Crust_placeStorageOrder_unixfs ::
  "'p ledger \<Rightarrow> unixfs_entry \<Rightarrow> int option \<Rightarrow> StoredResource async"
where
  "Crust_placeStorageOrder_unixfs L entry tips =
     await (isReadyOrError L) (\<lambda>_.
       await (getOrderStatus L (fs_cid entry)) (\<lambda>stored.
         if stored \<noteq> None
         then (Rejected (Error ''File has already been stored''), [])
         else
           (let fileCid = fs_cid entry;
                fileSize = fs_size entry;
                memo = (if fs_type entry = ''directory'' then ''folder'' else '''');
                tx = market_placeStorageOrder fileCid fileSize
                       (case tips of None \<Rightarrow> 0 | Some t \<Rightarrow> t) memo
            in (deliver placeOrderCallback (tx_signAndSend L tx),
                [Build tx, SignAndSend tx]))))"

section \<open>Transaction builder\<close>

text \<open>The entry of \<^verbatim>\<open>getPlaceStorageOrderRaw\<close>: size and tips are optional.\<close>

record raw_entry =
  raw_cid :: string
  raw_type :: entry_type
  raw_size :: "int option"
  raw_tips :: "int option"

definition getPlaceStorageOrderRaw :: "'p ledger \<Rightarrow> raw_entry \<Rightarrow> 'p async" where
  "getPlaceStorageOrderRaw L entry =
     await (isReadyOrError L) (\<lambda>_.
       let fileCid = raw_cid entry;
           fileSize = raw_size entry;
           memo = (if raw_type entry = directory then ''folder'' else '''');
           tx = market_placeStorageOrder fileCid
                  (case fileSize of None \<Rightarrow> 0 | Some n \<Rightarrow> n)
                  (case raw_tips entry of None \<Rightarrow> 0 | Some t \<Rightarrow> t) memo
       in (Fulfilled (toHex L tx), [Build tx]))"

definition getAddPrepaidAmountRaw :: "'p ledger \<Rightarrow> string \<Rightarrow> int \<Rightarrow> 'p async" where
  "getAddPrepaidAmountRaw L fileCid amt =
     await (isReadyOrError L) (\<lambda>_.
       let tx = market_addPrepaid fileCid amt in (Fulfilled (toHex L tx), [Build tx]))"

section \<open>Ledger connection manager with an idle countdown\<close>

text \<open>
  The variant of \<^verbatim>\<open>CrustNoSeed\<close> that disconnects after a minute without activity.
  An \<^verbatim>\<open>ApiPromise\<close> is the transport handle: its socket and its readiness promise
  \<^verbatim>\<open>isReadyOrError\<close>. A new one starts connecting at once and goes on by itself,
  whether or not anything still refers to it. \<^verbatim>\<open>api.isConnected\<close> reads true from
  the moment the socket is open until its close has come through.
\<close>

definition countDownSec :: nat where
  "countDownSec = 60"

datatype socket = Connecting | Open | Closing | Closed

record ApiPromise =
  socket :: socket
  readiness :: "unit promise"

definition new_ApiPromise :: ApiPromise where
  "new_ApiPromise = \<lparr>socket = Connecting, readiness = Pending\<rparr>"

definition api_isConnected :: "ApiPromise \<Rightarrow> bool" where
  "api_isConnected a = (socket a = Open \<or> socket a = Closing)"

text \<open>
  \<^verbatim>\<open>api.disconnect()\<close> asks the socket to close and resolves: an open socket is
  closing from then on, and still reads connected; a socket that never opened is given
  up.
\<close>

definition api_disconnect :: "ApiPromise \<Rightarrow> ApiPromise" where
  "api_disconnect a =
     a\<lparr>socket := (if socket a = Open \<or> socket a = Closing then Closing else Closed)\<rparr>"

text \<open>
  What the network does to a handle while the program waits: a connecting socket is
  answered by the endpoint (\<^verbatim>\<open>None\<close> when it accepts, the error otherwise), a closing
  socket is closed, and a pending readiness promise of a socket that is or gets open is
  settled by the same answer. A settled readiness promise keeps its value; the one of a
  socket closed before it got ready stays pending.
\<close>

definition settle :: "error option \<Rightarrow> unit promise \<Rightarrow> unit promise" where
  "settle net r =
     (case r of
        Pending \<Rightarrow> (case net of None \<Rightarrow> Fulfilled () | Some e \<Rightarrow> Rejected e)
      | _ \<Rightarrow> r)"

definition progress :: "error option \<Rightarrow> ApiPromise \<Rightarrow> ApiPromise" where
  "progress net a =
     (case socket a of
        Connecting \<Rightarrow>
          (case net of
             None \<Rightarrow> a\<lparr>socket := Open, readiness := settle net (readiness a)\<rparr>
           | Some e \<Rightarrow> a\<lparr>readiness := settle net (readiness a)\<rparr>)
      | Open \<Rightarrow> a\<lparr>readiness := settle net (readiness a)\<rparr>
      | Closing \<Rightarrow> a\<lparr>socket := Closed\<rparr>
      | Closed \<Rightarrow> a)"

text \<open>
  The manager and what it leaves behind: \<^verbatim>\<open>#api\<close>, \<^verbatim>\<open>#countDown\<close> (the id of the
  last timeout set), the \<^verbatim>\<open>ApiPromise\<close> objects \<^verbatim>\<open>#api\<close> no longer refers to, the
  pending timeouts (id and due time in milliseconds; each runs \<^verbatim>\<open>this.disconnect\<close>),
  the ids handed out, and the clock.
\<close>

record CrustNoSeed =
  api :: ApiPromise
  countDown :: nat
  released :: "ApiPromise list"
  timers :: "(nat \<times> nat) list"
  timer_ids :: nat
  now :: nat

text \<open>
  The network at work on every handle there is, also on those the manager has let go
  of. It happens by itself between calls, and while a call waits for the network.
\<close>

definition network :: "error option \<Rightarrow> CrustNoSeed \<Rightarrow> CrustNoSeed" where
  "network net s = s\<lparr>api := progress net (api s), released := map (progress net) (released s)\<rparr>"

text \<open>
  \<^verbatim>\<open>await this.#api.isReadyOrError\<close>: a settled promise is read at once; on a pending
  one the call waits for the network.
\<close>

definition await_isReadyOrError :: "error option \<Rightarrow> CrustNoSeed \<Rightarrow> unit promise \<times> CrustNoSeed" where
  "await_isReadyOrError net s =
     (case readiness (api s) of
        Pending \<Rightarrow> (let s1 = network net s in (readiness (api s1), s1))
      | r \<Rightarrow> (r, s))"

definition setTimeout :: "nat \<Rightarrow> CrustNoSeed \<Rightarrow> nat \<times> CrustNoSeed" where
  "setTimeout ms s =
     (timer_ids s,
      s\<lparr>timers := timers s @ [(timer_ids s, now s + ms)], timer_ids := Suc (timer_ids s)\<rparr>)"

definition clearTimeout :: "nat \<Rightarrow> CrustNoSeed \<Rightarrow> CrustNoSeed" where
  "clearTimeout i s = s\<lparr>timers := filter (\<lambda>t. fst t \<noteq> i) (timers s)\<rparr>"

definition setCountDown :: "CrustNoSeed \<Rightarrow> CrustNoSeed" where
  "setCountDown s = (let r = setTimeout (countDownSec * 1000) s in (snd r)\<lparr>countDown := fst r\<rparr>)"

definition new_CrustNoSeed :: "nat \<Rightarrow> CrustNoSeed" where
  "new_CrustNoSeed t =
     setCountDown
       \<lparr>api = new_ApiPromise, countDown = 0, released = [], timers = [], timer_ids = 0, now = t\<rparr>"

definition disconnect :: "CrustNoSeed \<Rightarrow> CrustNoSeed" where
  "disconnect s = s\<lparr>api := api_disconnect (api s)\<rparr>"

definition connect :: "error option \<Rightarrow> CrustNoSeed \<Rightarrow> unit promise \<times> CrustNoSeed" where
  "connect net s =
     await_isReadyOrError net (s\<lparr>released := released s @ [api s], api := new_ApiPromise\<rparr>)"

definition isConnected :: "CrustNoSeed \<Rightarrow> bool" where
  "isConnected s = api_isConnected (api s)"

definition idle_isReadyOrError :: "error option \<Rightarrow> CrustNoSeed \<Rightarrow> unit promise \<times> CrustNoSeed" where
  "idle_isReadyOrError net s =
     (case (if \<not> isConnected s then connect net s else (Fulfilled (), s)) of
        (Fulfilled _, s1) \<Rightarrow>
          (case await_isReadyOrError net s1 of
             (Fulfilled _, s2) \<Rightarrow> (Fulfilled (), setCountDown (clearTimeout (countDown s2) s2))
           | (r, s2) \<Rightarrow> (r, s2))
      | (r, s1) \<Rightarrow> (r, s1))"

text \<open>
  Time passing with no call from outside: the clock advances by \<^verbatim>\<open>d\<close> milliseconds
  and every timeout that is due by then runs its callback, \<^verbatim>\<open>this.disconnect\<close>.
  What the network does in the meantime is a step of its own, \<^verbatim>\<open>network\<close>. A call
  of the manager is one step at one instant of this clock: no timeout runs between the
  awaits inside a call.
\<close>

definition elapse :: "nat \<Rightarrow> CrustNoSeed \<Rightarrow> CrustNoSeed" where
  "elapse d s =
     (let t = now s + d;
          due = filter (\<lambda>x. snd x \<le> t) (timers s);
          s1 = s\<lparr>now := t, timers := filter (\<lambda>x. \<not> snd x \<le> t) (timers s)\<rparr>
      in fold (\<lambda>_. disconnect) due s1)"

text \<open>The transports that were opened and not closed, the one in \<^verbatim>\<open>#api\<close> first.\<close>

definition live_transports :: "CrustNoSeed \<Rightarrow> ApiPromise list" where
  "live_transports s = filter (\<lambda>a. socket a \<noteq> Closed) (api s # released s)"

text \<open>The builder of this variant: \<^verbatim>\<open>toHex\<close> is the encoding of the ledger client.\<close>

definition idle_getPlaceStorageOrderRaw ::
  "(extrinsic \<Rightarrow> 'p) \<Rightarrow> error option \<Rightarrow> raw_entry \<Rightarrow> CrustNoSeed \<Rightarrow> 'p promise \<times> CrustNoSeed"
where
  "idle_getPlaceStorageOrderRaw encode net entry s =
     (case idle_isReadyOrError net s of
        (Fulfilled _, s1) \<Rightarrow>
          (let fileCid = raw_cid entry;
               fileSize = raw_size entry;
               memo = (if raw_type entry = directory then ''folder'' else '''');
               tx = market_placeStorageOrder fileCid
                      (case fileSize of None \<Rightarrow> 0 | Some n \<Rightarrow> n)
                      (case raw_tips entry of None \<Rightarrow> 0 | Some t \<Rightarrow> t) memo
           in (Fulfilled (encode tx), s1))
      | (Rejected e, s1) \<Rightarrow> (Rejected e, s1)
      | (Pending, s1) \<Rightarrow> (Pending, s1))"

section \<open>Shared-instance registry\<close>

text \<open>
  Instances are references: the factory \<^verbatim>\<open>newCrust\<close> maps the number of instances
  made so far to the reference it returns, and \<^verbatim>\<open>ready c k\<close> tells whether
  \<^verbatim>\<open>c.isReadyOrError()\<close> resolves when it is the \<^verbatim>\<open>k\<close>-th step of the registry.
  The registry is the module variable \<^verbatim>\<open>crust\<close> (\<^verbatim>\<open>None\<close> for \<^verbatim>\<open>undefined\<close>), the
  number of instances made and the trace of what was done.
\<close>

datatype registry_event = Construct nat | Check nat bool

record registry =
  crust :: "nat option"
  made :: nat
  trace :: "registry_event list"

definition construct :: "(nat \<Rightarrow> nat) \<Rightarrow> registry \<Rightarrow> registry" where
  "construct newCrust s =
     (let c = newCrust (made s)
      in s\<lparr>crust := Some c, made := Suc (made s), trace := trace s @ [Construct c]\<rparr>)"

text \<open>
  \<^verbatim>\<open>validReady\<close> recurses until an instance is ready; with \<^verbatim>\<open>crust\<close> undefined the
  call \<^verbatim>\<open>crust.isReadyOrError()\<close> throws inside the \<^verbatim>\<open>try\<close> and is caught like a
  rejection. \<^verbatim>\<open>None\<close> is the access that never returns.
\<close>

partial_function (option) validReady ::
  "(nat \<Rightarrow> nat) \<Rightarrow> (nat \<Rightarrow> nat \<Rightarrow> bool) \<Rightarrow> registry \<Rightarrow> (nat \<times> registry) option"
where
  "validReady newCrust ready s =
     (case crust s of
        None \<Rightarrow> validReady newCrust ready (construct newCrust s)
      | Some c \<Rightarrow>
          if ready c (length (trace s))
          then Some (c, s\<lparr>trace := trace s @ [Check c True]\<rparr>)
          else validReady newCrust ready
                 (construct newCrust (s\<lparr>trace := trace s @ [Check c False]\<rparr>)))"

definition useCrust ::
  "(nat \<Rightarrow> nat) \<Rightarrow> (nat \<Rightarrow> nat \<Rightarrow> bool) \<Rightarrow> registry \<Rightarrow> (nat \<times> registry) option"
where
  "useCrust newCrust ready s =
     validReady newCrust ready (if crust s = None then construct newCrust s else s)"

text \<open>
  \<^verbatim>\<open>newCrustNoSeed\<close> runs \<^verbatim>\<open>new CrustNoSeed(parameters)\<close>: the object it returns is
  a new one, the \<^verbatim>\<open>n\<close>-th object made having the reference \<^verbatim>\<open>n\<close>.
\<close>

definition newCrustNoSeed :: "nat \<Rightarrow> nat" where
  "newCrustNoSeed n = n"

definition useCrustNoSeed :: "(nat \<Rightarrow> nat \<Rightarrow> bool) \<Rightarrow> registry \<Rightarrow> (nat \<times> registry) option" where
  "useCrustNoSeed ready s = useCrust newCrustNoSeed ready s"

section \<open>A recording ledger and sample data\<close>

text \<open>
  A ledger client that is ready, encodes a transaction as itself, answers every
  broadcast with the given status updates and every storage query with \<^verbatim>\<open>stored\<close>.
\<close>

definition mock_ledger :: "SubmittableResult list \<Rightarrow> OrderStatus option \<Rightarrow> extrinsic ledger" where
  "mock_ledger results stored =
     \<lparr>api_isReadyOrError = Fulfilled (), api_tx = Inr, toHex = (\<lambda>tx. tx),
      tx_send = (\<lambda>_. Inr results), tx_signAndSend = (\<lambda>_. Inr results),
      filesV2 = (\<lambda>_. Fulfilled stored)\<rparr>"

definition FileSuccess_event :: "string \<Rightarrow> event" where
  "FileSuccess_event c = \<lparr>event_method = ''FileSuccess'', event_data = [JString ''5GrwvaEF'', JString c]\<rparr>"

definition ExtrinsicSuccess_event :: event where
  "ExtrinsicSuccess_event = \<lparr>event_method = ''ExtrinsicSuccess'', event_data = []\<rparr>"

definition update :: "ExtrinsicStatus \<Rightarrow> event list \<Rightarrow> SubmittableResult" where
  "update st evs = \<lparr>status = st, events = evs, txHash = ''0x1234''\<rparr>"

definition transfer_call :: extrinsic where
  "transfer_call =
     \<lparr>tx_section = ''balances'', tx_method = ''transfer'',
      args = [(''dest'', JString ''5GrwvaEF''), (''value'', JNumber 1)]\<rparr>"

definition sample_status :: OrderStatus where
  "sample_status =
     \<lparr>file_size = ''1024'', spower = ''0'', expired_at = ''100'', calculated_at = ''10'',
      amount = ''5'', prepaid = ''0'', reported_replica_count = ''0'',
      remaining_paid_count = ''4'', replicas = []\<rparr>"

definition sample_order :: extrinsic where
  "sample_order = market_placeStorageOrder ''bafy123'' 1 0 ''''"

definition sample_entry :: entry where
  "sample_entry = \<lparr>entry_cid = ''bafy123'', entry_size = 1, entry_type = others, entry_tips = None\<rparr>"

definition sample_prepaid :: extrinsic where
  "sample_prepaid = market_addPrepaid ''bafy123'' 10"

definition number_cid_prepaid :: extrinsic where
  "number_cid_prepaid =
     \<lparr>tx_section = ''market'', tx_method = ''addPrepaid'',
      args = [(''cid'', JNumber 42), (''amount'', JNumber 10)]\<rparr>"

definition sample_raw_entry :: raw_entry where
  "sample_raw_entry = \<lparr>raw_cid = ''bafy123'', raw_type = directory, raw_size = None, raw_tips = None\<rparr>"

definition sample_unixfs_entry :: unixfs_entry where
  "sample_unixfs_entry = \<lparr>fs_cid = ''bafy123'', fs_size = 1024, fs_type = ''file''\<rparr>"

text \<open>A readiness oracle under which the instance 0 never gets ready and every other one does.\<close>

definition first_fails :: "nat \<Rightarrow> nat \<Rightarrow> bool" where
  "first_fails c k = (c \<noteq> 0)"

text \<open>A manager whose first readiness check has succeeded.\<close>

definition connected_manager :: CrustNoSeed where
  "connected_manager = snd (idle_isReadyOrError None (new_CrustNoSeed 0))"

text \<open>
  A factory that hands out the same instance every time, and a readiness oracle under
  which a check rejects before the third step of the registry and resolves from then on.
\<close>

definition same_instance :: "nat \<Rightarrow> nat" where
  "same_instance n = 0"

definition ready_later :: "nat \<Rightarrow> nat \<Rightarrow> bool" where
  "ready_later c k = (3 \<le> k)"

section \<open>Properties of promises and of the status callbacks\<close>

lemma resolve_simps:
  "resolve v Pending = Fulfilled v"
  "resolve v (Fulfilled w) = Fulfilled w"
  "resolve v (Rejected e) = Rejected e"
  by (simp_all add: resolve_def)

lemma reject_simps:
  "reject e Pending = Rejected e"
  "reject e (Fulfilled w) = Fulfilled w"
  "reject e (Rejected e') = Rejected e'"
  by (simp_all add: reject_def)

lemma resolve_settled: "p \<noteq> Pending \<Longrightarrow> resolve v p = p"
  by (cases p) (simp_all add: resolve_def)

lemma await_simps:
  "await (Fulfilled v, cs) k = (fst (k v), cs @ snd (k v))"
  "await (Rejected e, cs) k = (Rejected e, cs)"
  "await (Pending, cs) k = (Pending, cs)"
  by (simp_all add: await_def Let_def)

lemma scan_settled:
  "p \<noteq> Pending \<Longrightarrow> snd (foldl (scan_event h) (c, p) evs) = p"
proof (induction evs arbitrary: c)
  case Nil
  show ?case by simp
next
  case (Cons ev evs)
  have "scan_event h (c, p) ev = (fst (scan_event h (c, p) ev), p)"
    using Cons.prems by (simp add: scan_event_def Let_def resolve_settled)
  then show ?case
    using Cons.IH [OF Cons.prems] by (metis foldl_Cons)
qed

lemma placeOrderCallback_settled:
  "p \<noteq> Pending \<Longrightarrow> placeOrderCallback result p = p"
  by (simp add: placeOrderCallback_def scan_settled)

lemma addPrepaidCallback_settled:
  "p \<noteq> Pending \<Longrightarrow> addPrepaidCallback c result p = p"
  by (simp add: addPrepaidCallback_def resolve_settled split: ExtrinsicStatus.split)

lemma foldl_settled:
  "(\<And>r q. q \<noteq> Pending \<Longrightarrow> cb r q = q) \<Longrightarrow> p \<noteq> Pending \<Longrightarrow>
   foldl (\<lambda>q r. cb r q) p rs = p"
  by (induction rs) simp_all

lemma scan_quiet:
  "list_all (\<lambda>e. event_method e \<noteq> ''ExtrinsicSuccess'') evs \<Longrightarrow>
   snd (foldl (scan_event h) (c, p) evs) = p"
  by (induction evs arbitrary: c) (simp_all add: scan_event_def Let_def)

lemma scan_idle:
  "list_all (\<lambda>e. event_method e \<noteq> ''ExtrinsicSuccess'' \<and> event_method e \<noteq> ''FileSuccess'') evs \<Longrightarrow>
   foldl (scan_event h) (c, p) evs = (c, p)"
  by (induction evs arbitrary: c) (simp_all add: scan_event_def Let_def)

lemma scan_file_then_success:
  assumes pre: "list_all (\<lambda>e. event_method e \<noteq> ''ExtrinsicSuccess'') pre"
    and fs: "event_method fs = ''FileSuccess''"
    and mid: "list_all (\<lambda>e. event_method e \<noteq> ''ExtrinsicSuccess'' \<and> event_method e \<noteq> ''FileSuccess'') mid"
    and es: "event_method es = ''ExtrinsicSuccess''"
  shows "snd (foldl (scan_event h) (c0, Pending) (pre @ fs # mid @ es # post)) =
         Fulfilled \<lparr>hash = h, cid = pop_toHuman (event_data fs)\<rparr>"
proof -
  obtain c1 where s1: "foldl (scan_event h) (c0, Pending) pre = (c1, Pending)"
    using scan_quiet [OF pre, of h c0 Pending] by (metis prod.collapse)
  have s2: "scan_event h (c1, Pending) fs = (pop_toHuman (event_data fs), Pending)"
    using fs by (simp add: scan_event_def Let_def)
  have s3: "foldl (scan_event h) (pop_toHuman (event_data fs), Pending) mid =
            (pop_toHuman (event_data fs), Pending)"
    by (rule scan_idle [OF mid])
  have s4: "scan_event h (pop_toHuman (event_data fs), Pending) es =
            (pop_toHuman (event_data fs), Fulfilled \<lparr>hash = h, cid = pop_toHuman (event_data fs)\<rparr>)"
    using es by (simp add: scan_event_def resolve_def Let_def)
  show ?thesis
    by (simp add: s1 s2 s3 s4 scan_settled)
qed

lemma deliver_first_resolution:
  assumes cb: "\<And>r q. q \<noteq> Pending \<Longrightarrow> cb r q = q"
    and before: "list_all (\<lambda>r. cb r Pending = Pending) before"
    and hit: "cb result Pending = Fulfilled v"
  shows "deliver cb (Inr (before @ result # later)) = Fulfilled v"
proof -
  have "foldl (\<lambda>q r. cb r q) Pending before = Pending"
    using before by (induction before) simp_all
  then show ?thesis
    using hit by (simp add: deliver_def foldl_settled [of cb, OF cb])
qed

lemma placeOrderCallback_quiet:
  "\<not> (isInBlock r \<and> list_ex (\<lambda>e. event_method e = ''ExtrinsicSuccess'') (events r)) \<Longrightarrow>
   placeOrderCallback r Pending = Pending"
  by (auto simp: placeOrderCallback_def scan_quiet list_ex_iff list_all_iff)

lemma addPrepaidCallback_quiet:
  "\<not> isInBlock r \<Longrightarrow> addPrepaidCallback c r p = p"
  by (simp add: addPrepaidCallback_def isInBlock_def split: ExtrinsicStatus.splits)

lemma addPrepaidCallback_hit:
  "status r = InBlock h \<Longrightarrow> addPrepaidCallback c r Pending = Fulfilled \<lparr>hash = h, cid = c\<rparr>"
  by (simp add: addPrepaidCallback_def resolve_simps)

lemma scan_hash:
  "snd (foldl (scan_event h) (c, p) evs) = Fulfilled sr \<Longrightarrow> p = Fulfilled sr \<or> hash sr = h"
proof (induction evs arbitrary: c p)
  case Nil
  then show ?case by simp
next
  case (Cons ev evs)
  from Cons.prems
  have "snd (foldl (scan_event h) (fst (scan_event h (c, p) ev), snd (scan_event h (c, p) ev)) evs)
        = Fulfilled sr"
    by simp
  from Cons.IH [OF this]
  show ?case
    by (cases p) (auto simp: scan_event_def Let_def resolve_def split: if_splits)
qed

lemma placeOrderCallback_hash:
  "placeOrderCallback r p = Fulfilled sr \<Longrightarrow>
   p = Fulfilled sr \<or> (isInBlock r \<and> hash sr = txHash r)"
  by (auto simp: placeOrderCallback_def split: if_splits dest: scan_hash)

lemma placeOrder_updates_hash:
  "foldl (\<lambda>q r. placeOrderCallback r q) p rs = Fulfilled sr \<Longrightarrow>
   p = Fulfilled sr \<or> (\<exists>r\<in>set rs. isInBlock r \<and> hash sr = txHash r)"
proof (induction rs arbitrary: p)
  case Nil
  then show ?case by simp
next
  case (Cons r rs)
  from Cons.prems have "foldl (\<lambda>q r. placeOrderCallback r q) (placeOrderCallback r p) rs = Fulfilled sr"
    by simp
  from Cons.IH [OF this] show ?case
    by (auto dest: placeOrderCallback_hash)
qed

lemma addPrepaid_updates_hash:
  "foldl (\<lambda>q r. addPrepaidCallback c r q) Pending rs = Fulfilled sr \<Longrightarrow>
   \<exists>r. find isInBlock rs = Some r \<and> status r = InBlock (hash sr) \<and> cid sr = c"
proof (induction rs)
  case Nil
  then show ?case by simp
next
  case (Cons r rs)
  show ?case
  proof (cases "isInBlock r")
    case True
    then obtain h where h: "status r = InBlock h"
      by (auto simp: isInBlock_def split: ExtrinsicStatus.splits)
    have "foldl (\<lambda>q r. addPrepaidCallback c r q) (Fulfilled \<lparr>hash = h, cid = c\<rparr>) rs =
          Fulfilled \<lparr>hash = h, cid = c\<rparr>"
      by (rule foldl_settled) (simp_all add: addPrepaidCallback_settled)
    with Cons.prems h True show ?thesis
      by (auto simp: addPrepaidCallback_hit)
  next
    case False
    with Cons show ?thesis
      by (simp add: addPrepaidCallback_quiet)
  qed
qed

section \<open>Properties of the connection manager\<close>

lemma disconnect_twice: "disconnect (disconnect s) = disconnect s"
  by (simp add: disconnect_def api_disconnect_def)

lemma isConnected_disconnect: "isConnected (disconnect s) = isConnected s"
  by (auto simp: isConnected_def api_isConnected_def disconnect_def api_disconnect_def)

lemma network_disconnect: "\<not> isConnected (network net (disconnect s))"
  by (simp add: isConnected_def api_isConnected_def network_def disconnect_def api_disconnect_def
      progress_def)

lemma disconnect_fields:
  "now (disconnect s) = now s" "timers (disconnect s) = timers s"
  "released (disconnect s) = released s" "countDown (disconnect s) = countDown s"
  by (simp_all add: disconnect_def)

lemma fold_disconnect:
  "fold (\<lambda>_. disconnect) due s = (if due = [] then s else disconnect s)"
proof (induction due arbitrary: s)
  case Nil
  show ?case by simp
next
  case (Cons t due)
  show ?case
    by (simp add: Cons.IH disconnect_twice)
qed

lemma elapse_unfold:
  "elapse d s =
     (if list_ex (\<lambda>x. snd x \<le> now s + d) (timers s)
      then disconnect (s\<lparr>now := now s + d, timers := filter (\<lambda>x. \<not> snd x \<le> now s + d) (timers s)\<rparr>)
      else s\<lparr>now := now s + d, timers := filter (\<lambda>x. \<not> snd x \<le> now s + d) (timers s)\<rparr>)"
  by (auto simp: elapse_def Let_def fold_disconnect filter_empty_conv list_ex_iff)

lemma elapse_due:
  assumes "(i, t) \<in> set (timers s)" and "t \<le> now s + d"
  shows "api (elapse d s) = api_disconnect (api s)"
proof -
  from assms have "list_ex (\<lambda>x. snd x \<le> now s + d) (timers s)"
    unfolding list_ex_iff by (intro bexI [of _ "(i, t)"]) simp_all
  then show ?thesis
    by (simp add: elapse_unfold disconnect_def)
qed

lemma elapse_released: "released (elapse d s) = released s"
  by (simp add: elapse_unfold disconnect_def)

lemma elapse_closes:
  assumes "(i, t) \<in> set (timers s)" and "t \<le> now s + d"
  shows "\<not> isConnected (network net (elapse d s))"
  using elapse_due [OF assms]
  by (simp add: isConnected_def api_isConnected_def network_def api_disconnect_def progress_def)

lemma connect_result:
  "connect None s =
     (Fulfilled (), s\<lparr>released := map (progress None) (released s @ [api s]),
                      api := \<lparr>socket = Open, readiness = Fulfilled ()\<rparr>\<rparr>)"
  by (simp add: connect_def await_isReadyOrError_def network_def new_ApiPromise_def progress_def
      settle_def Let_def)

lemma connect_Fulfilled:
  assumes "connect net s = (Fulfilled u, s')"
  shows "socket (api s') = Open" and "now s' = now s" and "timers s' = timers s"
    and "countDown s' = countDown s" and "readiness (api s') = Fulfilled ()"
  using assms
  by (auto simp: connect_def await_isReadyOrError_def network_def new_ApiPromise_def progress_def
      settle_def Let_def split: option.splits)

lemma await_current_Fulfilled:
  assumes "await_isReadyOrError net s = (Fulfilled u, s')" and "isConnected s"
  shows "isConnected s'" and "now s' = now s" and "timers s' = timers s"
    and "countDown s' = countDown s"
  using assms
  by (auto simp: await_isReadyOrError_def network_def progress_def settle_def Let_def
      isConnected_def api_isConnected_def split: promise.splits option.splits socket.splits)

lemma idle_ready_success:
  assumes ok: "idle_isReadyOrError net s = (Fulfilled (), s1)"
  shows "isConnected s1" and "now s1 = now s"
    and "(countDown s1, now s + countDownSec * 1000) \<in> set (timers s1)"
proof -
  define c where "c = (if \<not> isConnected s then connect net s else (Fulfilled (), s))"
  obtain r s0 where c: "c = (r, s0)" by (cases c)
  from ok c have r: "r = Fulfilled ()"
    by (cases r) (simp_all add: idle_isReadyOrError_def c_def [symmetric])
  have open0: "isConnected s0"
    using c r connect_Fulfilled(1) [of net s "()" s0]
    by (auto simp: c_def isConnected_def api_isConnected_def split: if_splits)
  have now0: "now s0 = now s"
    using c r connect_Fulfilled(2) [of net s "()" s0] by (auto simp: c_def split: if_splits)
  obtain q s2 where a: "await_isReadyOrError net s0 = (q, s2)"
    by (cases "await_isReadyOrError net s0")
  from ok c r a have q: "q = Fulfilled ()"
    and s1: "s1 = setCountDown (clearTimeout (countDown s2) s2)"
    by (cases q; simp add: idle_isReadyOrError_def c_def [symmetric])+
  note kept = await_current_Fulfilled [OF a [unfolded q] open0]
  from kept(1) show "isConnected s1"
    by (simp add: s1 isConnected_def setCountDown_def setTimeout_def clearTimeout_def Let_def)
  show "now s1 = now s"
    by (simp add: s1 setCountDown_def setTimeout_def clearTimeout_def Let_def now0 kept(2))
  show "(countDown s1, now s + countDownSec * 1000) \<in> set (timers s1)"
    by (simp add: s1 setCountDown_def setTimeout_def clearTimeout_def Let_def now0 kept(2))
qed

lemma idle_reconnects:
  assumes "\<not> isConnected s"
  shows "fst (idle_isReadyOrError None s) = Fulfilled ()"
    and "socket (api (snd (idle_isReadyOrError None s))) = Open"
    and "released (snd (idle_isReadyOrError None s)) = map (progress None) (released s @ [api s])"
  using assms
  by (simp_all add: idle_isReadyOrError_def connect_result await_isReadyOrError_def
      setCountDown_def setTimeout_def clearTimeout_def Let_def)

lemma idle_reconnects_after_close:
  assumes ok: "idle_isReadyOrError net s = (Fulfilled (), s1)"
    and idle: "countDownSec * 1000 \<le> d"
  shows "isConnected s1"
    and "\<not> isConnected (network net' (elapse d s1))"
    and "fst (idle_isReadyOrError None (network net' (elapse d s1))) = Fulfilled ()"
    and "isConnected (snd (idle_isReadyOrError None (network net' (elapse d s1))))"
proof -
  note first = idle_ready_success [OF ok]
  show "isConnected s1" by (rule first(1))
  have "now s + countDownSec * 1000 \<le> now s1 + d"
    using idle first(2) by simp
  from elapse_closes [OF first(3) this]
  show closed: "\<not> isConnected (network net' (elapse d s1))" .
  from idle_reconnects [OF closed]
  show "fst (idle_isReadyOrError None (network net' (elapse d s1))) = Fulfilled ()"
    and "isConnected (snd (idle_isReadyOrError None (network net' (elapse d s1))))"
    by (simp_all add: isConnected_def api_isConnected_def)
qed

lemma idle_check_while_closing:
  assumes "socket (api s) = Closing" and "readiness (api s) = Fulfilled ()"
  shows "idle_isReadyOrError net s = (Fulfilled (), setCountDown (clearTimeout (countDown s) s))"
    and "released (snd (idle_isReadyOrError net s)) = released s"
    and "\<not> isConnected (network net' (snd (idle_isReadyOrError net s)))"
proof -
  show run: "idle_isReadyOrError net s = (Fulfilled (), setCountDown (clearTimeout (countDown s) s))"
    using assms
    by (simp add: idle_isReadyOrError_def isConnected_def api_isConnected_def
        await_isReadyOrError_def)
  show "released (snd (idle_isReadyOrError net s)) = released s"
    by (simp add: run setCountDown_def setTimeout_def clearTimeout_def Let_def)
  show "\<not> isConnected (network net' (snd (idle_isReadyOrError net s)))"
    using assms(1)
    by (simp add: run setCountDown_def setTimeout_def clearTimeout_def Let_def isConnected_def
        api_isConnected_def network_def progress_def)
qed

lemma new_CrustNoSeed_ready:
  "fst (idle_isReadyOrError None (new_CrustNoSeed t)) = Fulfilled ()"
  by (rule idle_reconnects(1))
    (simp add: new_CrustNoSeed_def setCountDown_def setTimeout_def isConnected_def
      api_isConnected_def new_ApiPromise_def Let_def)

lemma new_CrustNoSeed_single_timer:
  "list_all (\<lambda>t. fst t = countDown (new_CrustNoSeed t0)) (timers (new_CrustNoSeed t0))"
  by (simp add: new_CrustNoSeed_def setCountDown_def setTimeout_def Let_def)

lemma idle_ready_single_timer:
  assumes ok: "idle_isReadyOrError net s = (Fulfilled (), s1)"
    and one: "list_all (\<lambda>t. fst t = countDown s) (timers s)"
  shows "timers s1 = [(countDown s1, now s + countDownSec * 1000)]"
proof -
  define c where "c = (if \<not> isConnected s then connect net s else (Fulfilled (), s))"
  obtain r s0 where c: "c = (r, s0)" by (cases c)
  from ok c have r: "r = Fulfilled ()"
    by (cases r) (simp_all add: idle_isReadyOrError_def c_def [symmetric])
  have open0: "isConnected s0"
    using c r connect_Fulfilled(1) [of net s "()" s0]
    by (auto simp: c_def isConnected_def api_isConnected_def split: if_splits)
  have same0: "now s0 = now s" "timers s0 = timers s" "countDown s0 = countDown s"
    using c r connect_Fulfilled(2-4) [of net s "()" s0] by (auto simp: c_def split: if_splits)
  obtain q s2 where a: "await_isReadyOrError net s0 = (q, s2)"
    by (cases "await_isReadyOrError net s0")
  from ok c r a have q: "q = Fulfilled ()"
    and s1: "s1 = setCountDown (clearTimeout (countDown s2) s2)"
    by (cases q; simp add: idle_isReadyOrError_def c_def [symmetric])+
  note kept = await_current_Fulfilled [OF a [unfolded q] open0]
  have "filter (\<lambda>t. fst t \<noteq> countDown s) (timers s) = []"
    using one by (simp add: filter_empty_conv list_all_iff)
  then show ?thesis
    by (simp add: s1 setCountDown_def setTimeout_def clearTimeout_def Let_def same0 kept)
qed

lemma idle_window_keeps_connection:
  assumes ok: "idle_isReadyOrError net s = (Fulfilled (), s1)"
    and one: "list_all (\<lambda>t. fst t = countDown s) (timers s)"
    and early: "d < countDownSec * 1000"
  shows "isConnected (elapse d s1)"
proof -
  have "now s1 = now s" and "isConnected s1"
    using idle_ready_success [OF ok] by simp_all
  with early show ?thesis
    by (simp add: elapse_def Let_def idle_ready_single_timer [OF ok one] isConnected_def)
qed

lemma elapse_elapse: "elapse d2 (elapse d1 s) = elapse (d1 + d2) s"
proof -
  have keep: "filter (\<lambda>x. \<not> snd x \<le> now s + d1 + d2) (filter (\<lambda>x. \<not> snd x \<le> now s + d1) (timers s)) =
              filter (\<lambda>x. \<not> snd x \<le> now s + (d1 + d2)) (timers s)"
    by (auto intro: filter_cong simp: add.assoc)
  have due: "list_ex (\<lambda>x. snd x \<le> now s + (d1 + d2)) (timers s) \<longleftrightarrow>
             list_ex (\<lambda>x. snd x \<le> now s + d1) (timers s) \<or>
             list_ex (\<lambda>x. snd x \<le> now s + d1 + d2) (filter (\<lambda>x. \<not> snd x \<le> now s + d1) (timers s))"
    (is "?both \<longleftrightarrow> ?first \<or> ?second")
  proof
    assume ?both
    then obtain x where x: "x \<in> set (timers s)" "snd x \<le> now s + (d1 + d2)"
      by (auto simp: list_ex_iff)
    show "?first \<or> ?second"
    proof (cases "snd x \<le> now s + d1")
      case True
      with x show ?thesis by (auto simp: list_ex_iff)
    next
      case False
      with x have ?second
        unfolding list_ex_iff by (intro bexI [of _ x]) (simp_all add: add.assoc)
      then show ?thesis ..
    qed
  next
    assume "?first \<or> ?second"
    then obtain x where "x \<in> set (timers s)" "snd x \<le> now s + (d1 + d2)"
      by (auto simp: list_ex_iff add.assoc)
    then show ?both
      unfolding list_ex_iff by (intro bexI [of _ x])
  qed
  have keep': "filter (\<lambda>x. \<not> snd x \<le> now s + d1 \<and> \<not> snd x \<le> now s + (d1 + d2)) (timers s) =
               filter (\<lambda>x. \<not> snd x \<le> now s + (d1 + d2)) (timers s)"
    by (rule filter_cong) auto
  show ?thesis
    by (simp add: elapse_unfold [of d2] elapse_unfold [of d1 s] elapse_unfold [of "d1 + d2"]
        disconnect_fields keep due disconnect_twice)
      (auto simp: disconnect_def api_disconnect_def keep' add.assoc)
qed

section \<open>Properties of the registry\<close>

lemma validReady_undefined:
  "crust s = None \<Longrightarrow>
   validReady newCrust ready s = validReady newCrust ready (construct newCrust s)"
  by (subst validReady.simps) simp

lemma validReady_ready:
  "crust s = Some c \<Longrightarrow> ready c (length (trace s)) \<Longrightarrow>
   validReady newCrust ready s = Some (c, s\<lparr>trace := trace s @ [Check c True]\<rparr>)"
  by (subst validReady.simps) simp

lemma validReady_rejected:
  "crust s = Some c \<Longrightarrow> \<not> ready c (length (trace s)) \<Longrightarrow>
   validReady newCrust ready s =
   validReady newCrust ready (construct newCrust (s\<lparr>trace := trace s @ [Check c False]\<rparr>))"
  by (subst validReady.simps) simp

lemma validReady_returns_checked:
  assumes "validReady newCrust ready s = Some y"
  shows "crust (snd y) = Some (fst y) \<and> (\<exists>t. trace (snd y) = trace s @ t @ [Check (fst y) True])"
proof (rule validReady.raw_induct
    [where P = "\<lambda>newCrust ready s y. crust (snd y) = Some (fst y) \<and>
                  (\<exists>t. trace (snd y) = trace s @ t @ [Check (fst y) True])", OF _ assms])
  fix vr :: "(nat \<Rightarrow> nat) \<Rightarrow> (nat \<Rightarrow> nat \<Rightarrow> bool) \<Rightarrow> registry \<Rightarrow> (nat \<times> registry) option"
    and newCrust ready s y
  assume IH: "\<And>newCrust ready s y. vr newCrust ready s = Some y \<Longrightarrow>
      crust (snd y) = Some (fst y) \<and> (\<exists>t. trace (snd y) = trace s @ t @ [Check (fst y) True])"
    and body: "(case crust s of
        None \<Rightarrow> vr newCrust ready (construct newCrust s)
      | Some c \<Rightarrow>
          if ready c (length (trace s))
          then Some (c, s\<lparr>trace := trace s @ [Check c True]\<rparr>)
          else vr newCrust ready (construct newCrust (s\<lparr>trace := trace s @ [Check c False]\<rparr>))) =
        Some y"
  show "crust (snd y) = Some (fst y) \<and> (\<exists>t. trace (snd y) = trace s @ t @ [Check (fst y) True])"
  proof (cases "crust s")
    case None
    with body have "vr newCrust ready (construct newCrust s) = Some y"
      by simp
    from IH [OF this] show ?thesis
      by (auto simp: construct_def Let_def)
  next
    case (Some c)
    show ?thesis
    proof (cases "ready c (length (trace s))")
      case True
      with body Some show ?thesis by auto
    next
      case False
      with body Some
      have "vr newCrust ready (construct newCrust (s\<lparr>trace := trace s @ [Check c False]\<rparr>)) = Some y"
        by simp
      from IH [OF this] show ?thesis
        by (auto simp: construct_def Let_def)
    qed
  qed
qed

lemma validReady_keeps_bound:
  assumes "validReady newCrustNoSeed ready s = Some y"
    and "case crust s of None \<Rightarrow> True | Some c \<Rightarrow> c < made s"
  shows "fst y < made (snd y)"
proof -
  have "newCrustNoSeed = newCrustNoSeed \<longrightarrow>
        (case crust s of None \<Rightarrow> True | Some c \<Rightarrow> c < made s) \<longrightarrow> fst y < made (snd y)"
  proof (rule validReady.raw_induct
      [where P = "\<lambda>newCrust ready s y. newCrust = newCrustNoSeed \<longrightarrow>
                    (case crust s of None \<Rightarrow> True | Some c \<Rightarrow> c < made s) \<longrightarrow>
                    fst y < made (snd y)", OF _ assms(1)])
    fix vr :: "(nat \<Rightarrow> nat) \<Rightarrow> (nat \<Rightarrow> nat \<Rightarrow> bool) \<Rightarrow> registry \<Rightarrow> (nat \<times> registry) option"
      and newCrust ready s y
    assume IH: "\<And>newCrust ready s y. vr newCrust ready s = Some y \<Longrightarrow>
        newCrust = newCrustNoSeed \<longrightarrow>
        (case crust s of None \<Rightarrow> True | Some c \<Rightarrow> c < made s) \<longrightarrow> fst y < made (snd y)"
      and body: "(case crust s of
          None \<Rightarrow> vr newCrust ready (construct newCrust s)
        | Some c \<Rightarrow>
            if ready c (length (trace s))
            then Some (c, s\<lparr>trace := trace s @ [Check c True]\<rparr>)
            else vr newCrust ready (construct newCrust (s\<lparr>trace := trace s @ [Check c False]\<rparr>))) =
          Some y"
    show "newCrust = newCrustNoSeed \<longrightarrow>
          (case crust s of None \<Rightarrow> True | Some c \<Rightarrow> c < made s) \<longrightarrow> fst y < made (snd y)"
    proof (intro impI)
      assume fresh: "newCrust = newCrustNoSeed"
        and bound: "case crust s of None \<Rightarrow> True | Some c \<Rightarrow> c < made s"
      show "fst y < made (snd y)"
      proof (cases "crust s")
        case None
        with body have "vr newCrust ready (construct newCrust s) = Some y"
          by simp
        from IH [OF this] fresh show ?thesis
          by (simp add: construct_def Let_def newCrustNoSeed_def)
      next
        case (Some c)
        show ?thesis
        proof (cases "ready c (length (trace s))")
          case True
          with body Some bound show ?thesis by auto
        next
          case False
          with body Some
          have "vr newCrust ready (construct newCrust (s\<lparr>trace := trace s @ [Check c False]\<rparr>)) = Some y"
            by simp
          from IH [OF this] fresh show ?thesis
            by (simp add: construct_def Let_def newCrustNoSeed_def)
        qed
      qed
    qed
  qed
  with assms(2) show ?thesis by simp
qed

lemma useCrustNoSeed_keeps_bound:
  assumes "useCrustNoSeed ready s = Some (r, s')"
    and "case crust s of None \<Rightarrow> True | Some c \<Rightarrow> c < made s"
  shows "crust s' = Some r \<and> r < made s'"
proof -
  let ?s0 = "if crust s = None then construct newCrustNoSeed s else s"
  have run: "validReady newCrustNoSeed ready ?s0 = Some (r, s')"
    using assms(1) by (simp add: useCrustNoSeed_def useCrust_def)
  have "case crust ?s0 of None \<Rightarrow> True | Some c \<Rightarrow> c < made ?s0"
    using assms(2) by (auto simp: construct_def Let_def newCrustNoSeed_def split: option.splits)
  from validReady_keeps_bound [OF run this] validReady_returns_checked [OF run]
  show ?thesis by simp
qed

lemma useCrust_recreates:
  assumes memo: "crust s = Some c" and rejects: "\<not> ready c (length (trace s))"
  shows "useCrust newCrust ready s =
    (if ready (newCrust (made s)) (length (trace s) + 2)
     then Some (newCrust (made s),
            \<lparr>crust = Some (newCrust (made s)), made = Suc (made s),
             trace = trace s @ [Check c False, Construct (newCrust (made s)),
                                Check (newCrust (made s)) True]\<rparr>)
     else validReady newCrust ready
            (construct newCrust
               \<lparr>crust = Some (newCrust (made s)), made = Suc (made s),
                trace = trace s @ [Check c False, Construct (newCrust (made s)),
                                   Check (newCrust (made s)) False]\<rparr>))"
proof -
  let ?s2 = "construct newCrust (s\<lparr>trace := trace s @ [Check c False]\<rparr>)"
  have s2: "?s2 = \<lparr>crust = Some (newCrust (made s)), made = Suc (made s),
                   trace = trace s @ [Check c False, Construct (newCrust (made s))]\<rparr>"
    by (simp add: construct_def Let_def)
  have "useCrust newCrust ready s = validReady newCrust ready ?s2"
    using memo rejects by (simp add: useCrust_def validReady_rejected)
  also have "\<dots> = (if ready (newCrust (made s)) (length (trace s) + 2)
     then Some (newCrust (made s), ?s2\<lparr>trace := trace ?s2 @ [Check (newCrust (made s)) True]\<rparr>)
     else validReady newCrust ready
            (construct newCrust (?s2\<lparr>trace := trace ?s2 @ [Check (newCrust (made s)) False]\<rparr>)))"
    by (subst validReady.simps) (simp add: s2)
  finally show ?thesis
    by (simp add: s2)
qed

section \<open>The claims\<close>

subsection \<open>Transaction submitter\<close>

text \<open>
  C1 (as amended). A place-order submission is broadcast, by the raw path with a
  payload whose call is \<^verbatim>\<open>placeStorageOrder\<close> or by the signing path. No earlier
  status update is an included one that carries an \<^verbatim>\<open>ExtrinsicSuccess\<close> event, and
  the events of an included update hold a \<^verbatim>\<open>FileSuccess\<close> event whose last datum is
  the string \<^verbatim>\<open>c\<close>, followed by an \<^verbatim>\<open>ExtrinsicSuccess\<close> event, with no
  \<^verbatim>\<open>ExtrinsicSuccess\<close> event before that \<^verbatim>\<open>FileSuccess\<close> event and neither event
  name between the two. Then the promise is fulfilled with the transaction hash of
  that update and the content identifier \<^verbatim>\<open>c\<close>, whatever updates arrive later: it
  is settled once.
\<close>

lemma validReady_returns_current_or_made:
  assumes "validReady newCrust ready s = Some y"
  shows "crust s = Some (fst y) \<or> (\<exists>n\<ge>made s. fst y = newCrust n)"
proof (rule validReady.raw_induct
    [where P = "\<lambda>newCrust ready s y. crust s = Some (fst y) \<or> (\<exists>n\<ge>made s. fst y = newCrust n)",
     OF _ assms])
  fix vr :: "(nat \<Rightarrow> nat) \<Rightarrow> (nat \<Rightarrow> nat \<Rightarrow> bool) \<Rightarrow> registry \<Rightarrow> (nat \<times> registry) option"
    and newCrust ready s y
  assume IH: "\<And>newCrust ready s y. vr newCrust ready s = Some y \<Longrightarrow>
      crust s = Some (fst y) \<or> (\<exists>n\<ge>made s. fst y = newCrust n)"
    and body: "(case crust s of
        None \<Rightarrow> vr newCrust ready (construct newCrust s)
      | Some c \<Rightarrow>
          if ready c (length (trace s))
          then Some (c, s\<lparr>trace := trace s @ [Check c True]\<rparr>)
          else vr newCrust ready (construct newCrust (s\<lparr>trace := trace s @ [Check c False]\<rparr>))) =
        Some y"
  have step: "crust (construct newCrust s') = Some (fst y) \<or>
              (\<exists>n\<ge>made (construct newCrust s'). fst y = newCrust n) \<Longrightarrow>
              made s' = made s \<Longrightarrow> \<exists>n\<ge>made s. fst y = newCrust n" for s'
    by (auto simp: construct_def Let_def intro: Suc_leD)
  show "crust s = Some (fst y) \<or> (\<exists>n\<ge>made s. fst y = newCrust n)"
  proof (cases "crust s")
    case None
    with body have "vr newCrust ready (construct newCrust s) = Some y"
      by simp
    from step [OF IH [OF this]] show ?thesis by simp
  next
    case (Some c)
    show ?thesis
    proof (cases "ready c (length (trace s))")
      case True
      with body Some show ?thesis by auto
    next
      case False
      with body Some
      have "vr newCrust ready (construct newCrust (s\<lparr>trace := trace s @ [Check c False]\<rparr>)) = Some y"
        by simp
      from step [OF IH [OF this]] show ?thesis by simp
    qed
  qed
qed

section \<open>The claims\<close>

subsection \<open>Transaction submitter\<close>

text \<open>
  C1 (as amended). A place-order submission is broadcast, by the raw path with a
  payload whose call is \<^verbatim>\<open>placeStorageOrder\<close> or by the signing path. No earlier
  status update is an included one that carries an \<^verbatim>\<open>ExtrinsicSuccess\<close> event, and
  the events of an included update hold a \<^verbatim>\<open>FileSuccess\<close> event whose last datum is
  the string \<^verbatim>\<open>c\<close>, followed by an \<^verbatim>\<open>ExtrinsicSuccess\<close> event, with no
  \<^verbatim>\<open>ExtrinsicSuccess\<close> event before that \<^verbatim>\<open>FileSuccess\<close> event and neither event
  name between the two. Then the promise is fulfilled with the transaction hash of
  that update and the content identifier \<^verbatim>\<open>c\<close>, whatever updates arrive later: it
  is settled once.
\<close>

theorem place_order_first_success:
  assumes ready: "api_isReadyOrError L = Fulfilled ()"
    and before: "list_all (\<lambda>r. \<not> (isInBlock r \<and>
                   list_ex (\<lambda>e. event_method e = ''ExtrinsicSuccess'') (events r))) before"
    and included: "isInBlock result"
    and evs: "events result = pre @ fs # mid @ es # post"
    and pre: "list_all (\<lambda>e. event_method e \<noteq> ''ExtrinsicSuccess'') pre"
    and fs: "event_method fs = ''FileSuccess''"
    and arg: "event_data fs \<noteq> []" "last (event_data fs) = JString c"
    and mid: "list_all (\<lambda>e. event_method e \<noteq> ''ExtrinsicSuccess'' \<and>
                            event_method e \<noteq> ''FileSuccess'') mid"
    and es: "event_method es = ''ExtrinsicSuccess''"
  shows "(api_tx L payload = Inr tx \<and> tx_method tx = ''placeStorageOrder'' \<and>
          tx_send L tx = Inr (before @ result # later) \<longrightarrow>
            placeStorageOrderRaw L payload =
              (Fulfilled \<lparr>hash = txHash result, cid = JString c\<rparr>, [Send tx])) \<and>
         (snd (Crust_placeStorageOrder L entry) = [Build tx', SignAndSend tx'] \<and>
          tx_signAndSend L tx' = Inr (before @ result # later) \<longrightarrow>
            fst (Crust_placeStorageOrder L entry) =
              Fulfilled \<lparr>hash = txHash result, cid = JString c\<rparr>)"
proof -
  have hit: "placeOrderCallback result Pending = Fulfilled \<lparr>hash = txHash result, cid = JString c\<rparr>"
    using scan_file_then_success [OF pre fs mid es, of "txHash result" JUndefined post] included arg
    by (simp add: placeOrderCallback_def evs pop_toHuman_def)
  have quiet: "list_all (\<lambda>r. placeOrderCallback r Pending = Pending) before"
    using before by (simp add: list_all_iff placeOrderCallback_quiet)
  have resolved: "deliver placeOrderCallback (Inr (before @ result # later)) =
                  Fulfilled \<lparr>hash = txHash result, cid = JString c\<rparr>"
    by (rule deliver_first_resolution [OF placeOrderCallback_settled quiet hit])
  have raw: "api_tx L payload = Inr tx \<and> tx_method tx = ''placeStorageOrder'' \<and>
          tx_send L tx = Inr (before @ result # later) \<longrightarrow>
            placeStorageOrderRaw L payload =
              (Fulfilled \<lparr>hash = txHash result, cid = JString c\<rparr>, [Send tx])"
    by (simp add: placeStorageOrderRaw_def isReadyOrError_def ready await_simps resolved)
  have signing: "snd (Crust_placeStorageOrder L entry) = [Build tx', SignAndSend tx'] \<and>
          tx_signAndSend L tx' = Inr (before @ result # later) \<longrightarrow>
            fst (Crust_placeStorageOrder L entry) =
              Fulfilled \<lparr>hash = txHash result, cid = JString c\<rparr>"
    by (auto simp: Crust_placeStorageOrder_def isReadyOrError_def ready await_simps Let_def resolved)
  from raw signing show ?thesis by blast
qed

theorem place_order_first_success_witness:
  "placeStorageOrderRaw
     (mock_ledger [update Ready [],
                   update (InBlock ''0xB1'') [FileSuccess_event ''bafy123'', ExtrinsicSuccess_event],
                   update (InBlock ''0xB2'') [ExtrinsicSuccess_event],
                   update (Finalized ''0xB1'') []] None)
     sample_order =
   (Fulfilled \<lparr>hash = ''0x1234'', cid = JString ''bafy123''\<rparr>, [Send sample_order]) \<and>
   fst (Crust_placeStorageOrder
     (mock_ledger [update Ready [],
                   update (InBlock ''0xB1'') [FileSuccess_event ''bafy123'', ExtrinsicSuccess_event],
                   update (InBlock ''0xB2'') [ExtrinsicSuccess_event],
                   update (Finalized ''0xB1'') []] None)
     sample_entry) =
   Fulfilled \<lparr>hash = ''0x1234'', cid = JString ''bafy123''\<rparr>"
proof -
  let ?result = "update (InBlock ''0xB1'') [FileSuccess_event ''bafy123'', ExtrinsicSuccess_event]"
  let ?later = "[update (InBlock ''0xB2'') [ExtrinsicSuccess_event], update (Finalized ''0xB1'') []]"
  let ?L = "mock_ledger ([update Ready []] @ ?result # ?later) None"
  have ready: "api_isReadyOrError ?L = Fulfilled ()"
    by (simp add: mock_ledger_def)
  have before: "list_all (\<lambda>r. \<not> (isInBlock r \<and>
                   list_ex (\<lambda>e. event_method e = ''ExtrinsicSuccess'') (events r))) [update Ready []]"
    by (simp add: update_def isInBlock_def)
  have included: "isInBlock ?result"
    by (simp add: update_def isInBlock_def)
  have evs: "events ?result = [] @ FileSuccess_event ''bafy123'' # [] @ ExtrinsicSuccess_event # []"
    by (simp add: update_def)
  have fs: "event_method (FileSuccess_event ''bafy123'') = ''FileSuccess''"
    "event_data (FileSuccess_event ''bafy123'') \<noteq> []"
    "last (event_data (FileSuccess_event ''bafy123'')) = JString ''bafy123''"
    by (simp_all add: FileSuccess_event_def)
  have es: "event_method ExtrinsicSuccess_event = ''ExtrinsicSuccess''"
    by (simp add: ExtrinsicSuccess_event_def)
  have raw: "api_tx ?L sample_order = Inr sample_order \<and>
             tx_method sample_order = ''placeStorageOrder'' \<and>
             tx_send ?L sample_order = Inr ([update Ready []] @ ?result # ?later)"
    by (simp add: mock_ledger_def sample_order_def market_placeStorageOrder_def)
  have signing: "snd (Crust_placeStorageOrder ?L sample_entry) =
                   [Build sample_order, SignAndSend sample_order] \<and>
                 tx_signAndSend ?L sample_order = Inr ([update Ready []] @ ?result # ?later)"
    by (simp add: Crust_placeStorageOrder_def isReadyOrError_def await_simps mock_ledger_def
        sample_entry_def sample_order_def Let_def)
  have "txHash ?result = ''0x1234''"
    by (simp add: update_def)
  with place_order_first_success [OF ready before included evs _ fs _ es,
      of sample_order sample_order ?later sample_entry sample_order] raw signing
  show ?thesis by simp
qed

text \<open>
  C1 as stated fails: the events of an included update may hold an
  \<^verbatim>\<open>ExtrinsicSuccess\<close> event before the \<^verbatim>\<open>FileSuccess\<close> event that an
  \<^verbatim>\<open>ExtrinsicSuccess\<close> event follows. The first one resolves the promise while
  \<^verbatim>\<open>cid\<close> is still \<^verbatim>\<open>undefined\<close>.
\<close>

theorem place_order_cid_counterexample:
  "fst (placeStorageOrderRaw
     (mock_ledger [update (InBlock ''0xB1'')
        [ExtrinsicSuccess_event, FileSuccess_event ''bafy123'', ExtrinsicSuccess_event]] None)
     sample_order) =
   Fulfilled \<lparr>hash = ''0x1234'', cid = JUndefined\<rparr>"
  by (simp add: placeStorageOrderRaw_def isReadyOrError_def await_simps mock_ledger_def
      market_placeStorageOrder_def deliver_def placeOrderCallback_def isInBlock_def update_def
      scan_event_def ExtrinsicSuccess_event_def FileSuccess_event_def resolve_def pop_toHuman_def
      sample_order_def)

text \<open>
  C2 (as amended). A payload whose call name is not the one the raw path expects is
  rejected at once and nothing is broadcast. On the place-order path the error names
  \<^verbatim>\<open>placeStorageOrder\<close>. On the add-prepaid path the \<^verbatim>\<open>cid\<close> argument is checked
  first: the error names \<^verbatim>\<open>addPrepaid\<close> when that argument is a string, and is
  \<^verbatim>\<open>Not Valid Cid\<close> when it is not.
\<close>

theorem wrong_method_rejected:
  assumes ready: "api_isReadyOrError L = Fulfilled ()"
    and decoded: "api_tx L payload = Inr tx"
  shows "(tx_method tx \<noteq> ''placeStorageOrder'' \<longrightarrow>
            placeStorageOrderRaw L payload =
              (Rejected (Error ''Only Support placeStorageOrder method''), [])) \<and>
         (tx_method tx \<noteq> ''addPrepaid'' \<longrightarrow>
            addPrepaidAmountRaw L payload =
              (Rejected (Error (if typeof (human_arg tx ''cid'') = ''string''
                                then ''Only Support addPrepaid method'' else ''Not Valid Cid'')), []))"
proof (intro conjI impI)
  assume "tx_method tx \<noteq> ''placeStorageOrder''"
  then show "placeStorageOrderRaw L payload =
      (Rejected (Error ''Only Support placeStorageOrder method''), [])"
    by (simp add: placeStorageOrderRaw_def isReadyOrError_def ready decoded await_simps reject_simps)
next
  assume "tx_method tx \<noteq> ''addPrepaid''"
  then show "addPrepaidAmountRaw L payload =
      (Rejected (Error (if typeof (human_arg tx ''cid'') = ''string''
                        then ''Only Support addPrepaid method'' else ''Not Valid Cid'')), [])"
    by (simp add: addPrepaidAmountRaw_def isReadyOrError_def ready decoded await_simps
        reject_simps Let_def)
qed

theorem wrong_method_rejected_witness:
  "placeStorageOrderRaw (mock_ledger [update (InBlock ''0xB1'') []] None) sample_prepaid =
     (Rejected (Error ''Only Support placeStorageOrder method''), []) \<and>
   addPrepaidAmountRaw (mock_ledger [update (InBlock ''0xB1'') []] None) sample_order =
     (Rejected (Error ''Only Support addPrepaid method''), [])"
proof -
  let ?L = "mock_ledger [update (InBlock ''0xB1'') []] None"
  have ready: "api_isReadyOrError ?L = Fulfilled ()"
    by (simp add: mock_ledger_def)
  have d1: "api_tx ?L sample_prepaid = Inr sample_prepaid"
    and d2: "api_tx ?L sample_order = Inr sample_order"
    by (simp_all add: mock_ledger_def)
  have k1: "tx_method sample_prepaid \<noteq> ''placeStorageOrder''"
    by (simp add: sample_prepaid_def market_addPrepaid_def)
  have k2: "tx_method sample_order \<noteq> ''addPrepaid''"
    and c2: "typeof (human_arg sample_order ''cid'') = ''string''"
    by (simp_all add: sample_order_def market_placeStorageOrder_def human_arg_def typeof_def)
  from wrong_method_rejected [OF ready d1] wrong_method_rejected [OF ready d2] k1 k2 c2
  show ?thesis by simp
qed

text \<open>
  C2 as stated fails on the add-prepaid path: a \<^verbatim>\<open>balances.transfer\<close> payload has no
  \<^verbatim>\<open>cid\<close> argument, and the error it is rejected with does not name the expected call.
\<close>

theorem wrong_method_counterexample:
  "tx_method transfer_call \<noteq> ''addPrepaid'' \<and>
   fst (addPrepaidAmountRaw (mock_ledger [] None) transfer_call) = Rejected (Error ''Not Valid Cid'')"
  by (simp add: addPrepaidAmountRaw_def isReadyOrError_def await_simps mock_ledger_def
      transfer_call_def human_arg_def typeof_def reject_simps)

text \<open>
  C3. An add-prepaid submission is broadcast, by the raw path (the payload's call is
  \<^verbatim>\<open>addPrepaid\<close> and its \<^verbatim>\<open>cid\<close> argument the string \<^verbatim>\<open>c\<close>) or by the signing
  path (for \<^verbatim>\<open>fileCid\<close>). At the first status update that is included in a block
  the promise is fulfilled with the block hash of that update's \<^verbatim>\<open>InBlock\<close> status
  and the content identifier known at the call, whatever updates follow. The events
  of an update are not read: the callback does the same whatever events it carries.
\<close>

theorem add_prepaid_resolves_in_block:
  assumes ready: "api_isReadyOrError L = Fulfilled ()"
    and before: "list_all (\<lambda>r. \<not> isInBlock r) before"
    and included: "status result = InBlock blockHash"
  shows "(api_tx L payload = Inr tx \<and> tx_method tx = ''addPrepaid'' \<and>
          human_arg tx ''cid'' = JString c \<and> tx_send L tx = Inr (before @ result # later) \<longrightarrow>
            addPrepaidAmountRaw L payload =
              (Fulfilled \<lparr>hash = blockHash, cid = JString c\<rparr>, [Send tx])) \<and>
         (tx_signAndSend L (market_addPrepaid fileCid amt) = Inr (before @ result # later) \<longrightarrow>
            Crust_addPrepaidAmount L fileCid amt =
              (Fulfilled \<lparr>hash = blockHash, cid = JString fileCid\<rparr>,
               [Build (market_addPrepaid fileCid amt), SignAndSend (market_addPrepaid fileCid amt)])) \<and>
         (\<forall>v evs p. addPrepaidCallback v (result\<lparr>events := evs\<rparr>) p = addPrepaidCallback v result p)"
proof -
  have resolved: "deliver (addPrepaidCallback v) (Inr (before @ result # later)) =
                  Fulfilled \<lparr>hash = blockHash, cid = v\<rparr>" for v
  proof (rule deliver_first_resolution)
    show "q \<noteq> Pending \<Longrightarrow> addPrepaidCallback v r q = q" for r q
      by (rule addPrepaidCallback_settled)
    show "list_all (\<lambda>r. addPrepaidCallback v r Pending = Pending) before"
      using before by (simp add: list_all_iff addPrepaidCallback_quiet)
    show "addPrepaidCallback v result Pending = Fulfilled \<lparr>hash = blockHash, cid = v\<rparr>"
      by (rule addPrepaidCallback_hit [OF included])
  qed
  have raw: "api_tx L payload = Inr tx \<and> tx_method tx = ''addPrepaid'' \<and>
          human_arg tx ''cid'' = JString c \<and> tx_send L tx = Inr (before @ result # later) \<longrightarrow>
            addPrepaidAmountRaw L payload =
              (Fulfilled \<lparr>hash = blockHash, cid = JString c\<rparr>, [Send tx])"
    by (simp add: addPrepaidAmountRaw_def isReadyOrError_def ready await_simps typeof_def resolved)
  have signing: "tx_signAndSend L (market_addPrepaid fileCid amt) = Inr (before @ result # later) \<longrightarrow>
            Crust_addPrepaidAmount L fileCid amt =
              (Fulfilled \<lparr>hash = blockHash, cid = JString fileCid\<rparr>,
               [Build (market_addPrepaid fileCid amt), SignAndSend (market_addPrepaid fileCid amt)])"
    by (simp add: Crust_addPrepaidAmount_def isReadyOrError_def ready await_simps Let_def resolved)
  have unscanned: "\<forall>v evs p. addPrepaidCallback v (result\<lparr>events := evs\<rparr>) p =
                             addPrepaidCallback v result p"
    by (simp add: addPrepaidCallback_def)
  from raw signing unscanned show ?thesis by (intro conjI)
qed

theorem add_prepaid_resolves_in_block_witness:
  "addPrepaidAmountRaw
     (mock_ledger [update Ready [], update (InBlock ''0xABC'') [], update (Finalized ''0xABC'') []] None)
     sample_prepaid =
   (Fulfilled \<lparr>hash = ''0xABC'', cid = JString ''bafy123''\<rparr>, [Send sample_prepaid]) \<and>
   Crust_addPrepaidAmount
     (mock_ledger [update Ready [], update (InBlock ''0xABC'') [], update (Finalized ''0xABC'') []] None)
     ''bafy123'' 10 =
   (Fulfilled \<lparr>hash = ''0xABC'', cid = JString ''bafy123''\<rparr>,
    [Build sample_prepaid, SignAndSend sample_prepaid])"
proof -
  let ?later = "[update (Finalized ''0xABC'') []]"
  let ?L = "mock_ledger ([update Ready []] @ update (InBlock ''0xABC'') [] # ?later) None"
  have ready: "api_isReadyOrError ?L = Fulfilled ()"
    by (simp add: mock_ledger_def)
  have before: "list_all (\<lambda>r. \<not> isInBlock r) [update Ready []]"
    by (simp add: update_def isInBlock_def)
  have included: "status (update (InBlock ''0xABC'') []) = InBlock ''0xABC''"
    by (simp add: update_def)
  have raw: "api_tx ?L sample_prepaid = Inr sample_prepaid \<and>
             tx_method sample_prepaid = ''addPrepaid'' \<and>
             human_arg sample_prepaid ''cid'' = JString ''bafy123'' \<and>
             tx_send ?L sample_prepaid = Inr ([update Ready []] @ update (InBlock ''0xABC'') [] # ?later)"
    by (simp add: mock_ledger_def sample_prepaid_def market_addPrepaid_def human_arg_def)
  have signing: "tx_signAndSend ?L (market_addPrepaid ''bafy123'' 10) =
                 Inr ([update Ready []] @ update (InBlock ''0xABC'') [] # ?later)"
    by (simp add: mock_ledger_def)
  from add_prepaid_resolves_in_block [OF ready before included,
      of sample_prepaid sample_prepaid "''bafy123''" ?later "''bafy123''" 10] raw signing
  show ?thesis by (simp add: sample_prepaid_def)
qed

text \<open>
  C4 (as amended). The hash of the resource a raw place-order submission is fulfilled
  with is the transaction hash reported by an included status update of the broadcast;
  the hash of the resource a raw add-prepaid submission is fulfilled with is the block
  hash in the \<^verbatim>\<open>InBlock\<close> status of the first included update.
\<close>

theorem stored_resource_hash:
  "(fst (placeStorageOrderRaw L payload) = Fulfilled sr \<longrightarrow>
      (\<exists>tx results. api_tx L payload = Inr tx \<and> tx_send L tx = Inr results \<and>
         (\<exists>r\<in>set results. isInBlock r \<and> hash sr = txHash r))) \<and>
   (fst (addPrepaidAmountRaw L payload) = Fulfilled sr \<longrightarrow>
      (\<exists>tx results r. api_tx L payload = Inr tx \<and> tx_send L tx = Inr results \<and>
         find isInBlock results = Some r \<and> status r = InBlock (hash sr)))"
proof (intro conjI impI)
  assume ok: "fst (placeStorageOrderRaw L payload) = Fulfilled sr"
  then obtain tx where tx: "api_tx L payload = Inr tx"
    and sent: "deliver placeOrderCallback (tx_send L tx) = Fulfilled sr"
    by (auto simp: placeStorageOrderRaw_def isReadyOrError_def await_def Let_def reject_simps
        split: promise.splits sum.splits if_splits)
  from sent obtain results where results: "tx_send L tx = Inr results"
    by (cases "tx_send L tx") (simp_all add: deliver_def reject_simps)
  with sent have "foldl (\<lambda>q r. placeOrderCallback r q) Pending results = Fulfilled sr"
    by (simp add: deliver_def)
  from placeOrder_updates_hash [OF this]
  have "\<exists>r\<in>set results. isInBlock r \<and> hash sr = txHash r"
    by simp
  with tx results
  show "\<exists>tx results. api_tx L payload = Inr tx \<and> tx_send L tx = Inr results \<and>
         (\<exists>r\<in>set results. isInBlock r \<and> hash sr = txHash r)"
    by blast
next
  assume ok: "fst (addPrepaidAmountRaw L payload) = Fulfilled sr"
  then obtain tx where tx: "api_tx L payload = Inr tx"
    and sent: "deliver (addPrepaidCallback (human_arg tx ''cid'')) (tx_send L tx) = Fulfilled sr"
    by (auto simp: addPrepaidAmountRaw_def isReadyOrError_def await_def Let_def reject_simps
        split: promise.splits sum.splits if_splits)
  from sent obtain results where results: "tx_send L tx = Inr results"
    by (cases "tx_send L tx") (simp_all add: deliver_def reject_simps)
  with sent
  have "foldl (\<lambda>q r. addPrepaidCallback (human_arg tx ''cid'') r q) Pending results = Fulfilled sr"
    by (simp add: deliver_def)
  from addPrepaid_updates_hash [OF this] tx results
  show "\<exists>tx results r. api_tx L payload = Inr tx \<and> tx_send L tx = Inr results \<and>
         find isInBlock results = Some r \<and> status r = InBlock (hash sr)"
    by blast
qed

theorem stored_resource_hash_witness:
  "(\<exists>tx results. api_tx (mock_ledger [update (InBlock ''0xABC'') [ExtrinsicSuccess_event]] None)
        sample_order = Inr tx \<and>
      tx_send (mock_ledger [update (InBlock ''0xABC'') [ExtrinsicSuccess_event]] None) tx = Inr results \<and>
      (\<exists>r\<in>set results. isInBlock r \<and> hash \<lparr>hash = ''0x1234'', cid = JUndefined\<rparr> = txHash r)) \<and>
   (\<exists>tx results r. api_tx (mock_ledger [update (InBlock ''0xABC'') [ExtrinsicSuccess_event]] None)
        sample_prepaid = Inr tx \<and>
      tx_send (mock_ledger [update (InBlock ''0xABC'') [ExtrinsicSuccess_event]] None) tx = Inr results \<and>
      find isInBlock results = Some r \<and>
      status r = InBlock (hash \<lparr>hash = ''0xABC'', cid = JString ''bafy123''\<rparr>))"
proof -
  let ?L = "mock_ledger [update (InBlock ''0xABC'') [ExtrinsicSuccess_event]] None"
  have place: "fst (placeStorageOrderRaw ?L sample_order) =
               Fulfilled \<lparr>hash = ''0x1234'', cid = JUndefined\<rparr>"
    by (simp add: placeStorageOrderRaw_def isReadyOrError_def await_simps mock_ledger_def
        sample_order_def market_placeStorageOrder_def deliver_def placeOrderCallback_def
        isInBlock_def update_def scan_event_def ExtrinsicSuccess_event_def resolve_simps)
  have prepaid: "fst (addPrepaidAmountRaw ?L sample_prepaid) =
                 Fulfilled \<lparr>hash = ''0xABC'', cid = JString ''bafy123''\<rparr>"
    by (simp add: addPrepaidAmountRaw_def isReadyOrError_def await_simps mock_ledger_def
        sample_prepaid_def market_addPrepaid_def deliver_def addPrepaidCallback_def
        update_def human_arg_def typeof_def resolve_simps Let_def)
  from stored_resource_hash [of ?L sample_order "\<lparr>hash = ''0x1234'', cid = JUndefined\<rparr>"] place
    stored_resource_hash [of ?L sample_prepaid "\<lparr>hash = ''0xABC'', cid = JString ''bafy123''\<rparr>"]
    prepaid
  show ?thesis by blast
qed

text \<open>
  C4 as stated fails for an add-prepaid submission: the hash returned is the block
  hash \<^verbatim>\<open>0xABC\<close>, while the transaction hash of the update is \<^verbatim>\<open>0x1234\<close>.
\<close>

theorem add_prepaid_hash_counterexample:
  "fst (addPrepaidAmountRaw (mock_ledger [update (InBlock ''0xABC'') []] None) sample_prepaid) =
     Fulfilled \<lparr>hash = ''0xABC'', cid = JString ''bafy123''\<rparr> \<and>
   txHash (update (InBlock ''0xABC'') []) = ''0x1234'' \<and>
   hash \<lparr>hash = ''0xABC'', cid = JString ''bafy123''\<rparr> \<noteq> txHash (update (InBlock ''0xABC'') [])"
  by (simp add: addPrepaidAmountRaw_def isReadyOrError_def await_simps mock_ledger_def
      sample_prepaid_def market_addPrepaid_def deliver_def addPrepaidCallback_def
      update_def human_arg_def typeof_def resolve_simps Let_def)

text \<open>
  C5. A raw add-prepaid submission whose decoded payload has a \<^verbatim>\<open>cid\<close> argument that
  is not a string (the number 42, or none at all) is rejected with the error
  \<^verbatim>\<open>Not Valid Cid\<close>, and nothing is broadcast.
\<close>

theorem add_prepaid_invalid_cid:
  assumes ready: "api_isReadyOrError L = Fulfilled ()"
    and decoded: "api_tx L payload = Inr tx"
    and cid: "typeof (human_arg tx ''cid'') \<noteq> ''string''"
  shows "addPrepaidAmountRaw L payload = (Rejected (Error ''Not Valid Cid''), [])"
  using cid
  by (simp add: addPrepaidAmountRaw_def isReadyOrError_def ready decoded await_simps reject_simps)

theorem add_prepaid_invalid_cid_witness:
  "human_arg number_cid_prepaid ''cid'' = JNumber 42 \<and>
   addPrepaidAmountRaw (mock_ledger [update (InBlock ''0xB1'') []] None) number_cid_prepaid =
     (Rejected (Error ''Not Valid Cid''), [])"
proof -
  let ?L = "mock_ledger [update (InBlock ''0xB1'') []] None"
  have arg: "human_arg number_cid_prepaid ''cid'' = JNumber 42"
    by (simp add: number_cid_prepaid_def human_arg_def)
  have "api_isReadyOrError ?L = Fulfilled ()" "api_tx ?L number_cid_prepaid = Inr number_cid_prepaid"
    "typeof (human_arg number_cid_prepaid ''cid'') \<noteq> ''string''"
    by (simp_all add: mock_ledger_def arg typeof_def)
  from add_prepaid_invalid_cid [OF this] arg show ?thesis by simp
qed

subsection \<open>Connection manager and registry\<close>

text \<open>
  C6 fails on the code when the next readiness check comes while the disconnect that
  the timeout started is still in progress. The first readiness check of a manager
  succeeds. After 60 seconds with no call the timeout runs \<^verbatim>\<open>this.disconnect\<close>,
  which leaves the socket closing, so \<^verbatim>\<open>isConnected()\<close> still reads true. A
  readiness check made then resolves without reconnecting: no new handle is made. Once
  the socket has closed, \<^verbatim>\<open>isConnected()\<close> is false although that check
  succeeded. Where the check comes after the close, it reconnects
  (\<^verbatim>\<open>idle_reconnects_after_close\<close>).
\<close>

theorem idle_check_during_disconnect:
  "fst (idle_isReadyOrError None (new_CrustNoSeed 0)) = Fulfilled () \<and>
   isConnected (elapse 60000 connected_manager) \<and>
   socket (api (elapse 60000 connected_manager)) = Closing \<and>
   fst (idle_isReadyOrError None (elapse 60000 connected_manager)) = Fulfilled () \<and>
   released (snd (idle_isReadyOrError None (elapse 60000 connected_manager))) =
     released connected_manager \<and>
   \<not> isConnected (network None (snd (idle_isReadyOrError None (elapse 60000 connected_manager))))"
proof -
  have m: "connected_manager =
      \<lparr>api = \<lparr>socket = Open, readiness = Fulfilled ()\<rparr>, countDown = 1,
       released = [\<lparr>socket = Open, readiness = Fulfilled ()\<rparr>],
       timers = [(1, 60000)], timer_ids = 2, now = 0\<rparr>"
    by (simp add: connected_manager_def idle_isReadyOrError_def new_CrustNoSeed_def
        setCountDown_def setTimeout_def clearTimeout_def isConnected_def api_isConnected_def
        new_ApiPromise_def connect_result await_isReadyOrError_def progress_def settle_def
        countDownSec_def Let_def)
  have e: "elapse 60000 connected_manager =
      \<lparr>api = \<lparr>socket = Closing, readiness = Fulfilled ()\<rparr>, countDown = 1,
       released = [\<lparr>socket = Open, readiness = Fulfilled ()\<rparr>],
       timers = [], timer_ids = 2, now = 60000\<rparr>"
    by (simp add: m elapse_def disconnect_def api_disconnect_def Let_def)
  have closing: "socket (api (elapse 60000 connected_manager)) = Closing"
    and ready: "readiness (api (elapse 60000 connected_manager)) = Fulfilled ()"
    by (simp_all add: e)
  note race = idle_check_while_closing [OF closing ready]
  show ?thesis
    using new_CrustNoSeed_ready [of 0] closing race
    by (simp add: isConnected_def api_isConnected_def elapse_released)
qed

text \<open>
  C7 (as amended). The registry holds the instance \<^verbatim>\<open>c\<close>, made earlier, and at an
  access its readiness check rejects. Then the same access calls the factory and stores
  the instance it returns; the next step is the readiness check of that instance, which
  is returned only when the check has passed, and otherwise replaced in the same way.
  Whatever instance the access returns is the one stored, and its passed check is the
  last step before the return. The new instance and the instance returned are not the
  old one when the factory never hands out the old one again; so it is with the factory
  \<^verbatim>\<open>newCrustNoSeed\<close>, which runs \<^verbatim>\<open>new CrustNoSeed\<close>.
\<close>

theorem registry_recreates_instance:
  assumes memo: "crust s = Some c" and old: "c < made s"
    and rejects: "\<not> ready c (length (trace s))"
  shows "useCrust newCrust ready s =
          (if ready (newCrust (made s)) (length (trace s) + 2)
           then Some (newCrust (made s),
                  \<lparr>crust = Some (newCrust (made s)), made = Suc (made s),
                   trace = trace s @ [Check c False, Construct (newCrust (made s)),
                                      Check (newCrust (made s)) True]\<rparr>)
           else validReady newCrust ready
                  (construct newCrust
                     \<lparr>crust = Some (newCrust (made s)), made = Suc (made s),
                      trace = trace s @ [Check c False, Construct (newCrust (made s)),
                                         Check (newCrust (made s)) False]\<rparr>)) \<and>
         (\<forall>r s'. useCrust newCrust ready s = Some (r, s') \<longrightarrow>
            crust s' = Some r \<and>
            (\<exists>t. trace s' =
                   trace s @ [Check c False, Construct (newCrust (made s))] @ t @ [Check r True])) \<and>
         ((\<forall>n\<ge>made s. newCrust n \<noteq> c) \<longrightarrow>
            (\<forall>r s'. useCrust newCrust ready s = Some (r, s') \<longrightarrow> r \<noteq> c)) \<and>
         newCrustNoSeed (made s) \<noteq> c \<and>
         (\<forall>r s'. useCrustNoSeed ready s = Some (r, s') \<longrightarrow> r \<noteq> c)"
proof -
  have step: "useCrust f ready s =
      validReady f ready (construct f (s\<lparr>trace := trace s @ [Check c False]\<rparr>))" for f
    using memo rejects by (simp add: useCrust_def validReady_rejected)
  have exact: "useCrust newCrust ready s =
          (if ready (newCrust (made s)) (length (trace s) + 2)
           then Some (newCrust (made s),
                  \<lparr>crust = Some (newCrust (made s)), made = Suc (made s),
                   trace = trace s @ [Check c False, Construct (newCrust (made s)),
                                      Check (newCrust (made s)) True]\<rparr>)
           else validReady newCrust ready
                  (construct newCrust
                     \<lparr>crust = Some (newCrust (made s)), made = Suc (made s),
                      trace = trace s @ [Check c False, Construct (newCrust (made s)),
                                         Check (newCrust (made s)) False]\<rparr>))"
    using memo rejects by (rule useCrust_recreates)
  have checked: "crust s' = Some r \<and>
      (\<exists>t. trace s' = trace s @ [Check c False, Construct (newCrust (made s))] @ t @ [Check r True])"
    if "useCrust newCrust ready s = Some (r, s')" for r s'
  proof -
    from that have "validReady newCrust ready
        (construct newCrust (s\<lparr>trace := trace s @ [Check c False]\<rparr>)) = Some (r, s')"
      by (simp add: step)
    from validReady_returns_checked [OF this] show ?thesis
      by (simp add: construct_def Let_def)
  qed
  have distinct: "r \<noteq> c"
    if fresh: "\<forall>n\<ge>made s. f n \<noteq> c" and run: "useCrust f ready s = Some (r, s')" for f r s'
  proof -
    from run have "validReady f ready
        (construct f (s\<lparr>trace := trace s @ [Check c False]\<rparr>)) = Some (r, s')"
      by (simp add: step)
    from validReady_returns_current_or_made [OF this]
    have "r = f (made s) \<or> (\<exists>n\<ge>Suc (made s). r = f n)"
      by (auto simp: construct_def Let_def)
    then obtain n where "made s \<le> n" and "r = f n"
      using Suc_leD by blast
    with fresh show ?thesis by simp
  qed
  have fresh: "\<forall>n\<ge>made s. newCrustNoSeed n \<noteq> c"
    using old by (simp add: newCrustNoSeed_def)
  from exact checked distinct fresh show ?thesis
    unfolding useCrustNoSeed_def by blast
qed

theorem registry_recreates_instance_witness:
  "useCrustNoSeed first_fails \<lparr>crust = Some 0, made = 1, trace = [Construct 0]\<rparr> =
     Some (1, \<lparr>crust = Some 1, made = 2,
               trace = [Construct 0, Check 0 False, Construct 1, Check 1 True]\<rparr>) \<and>
   newCrustNoSeed 1 \<noteq> 0"
proof -
  let ?s = "\<lparr>crust = Some 0, made = 1, trace = [Construct 0]\<rparr>"
  have memo: "crust ?s = Some 0" and old: "0 < made ?s"
    and rejects: "\<not> first_fails 0 (length (trace ?s))"
    by (simp_all add: first_fails_def)
  from registry_recreates_instance
    [where s = ?s and c = 0 and ready = first_fails and newCrust = newCrustNoSeed,
     OF memo old rejects]
  show ?thesis
    by (simp add: useCrustNoSeed_def first_fails_def newCrustNoSeed_def)
qed

text \<open>
  C7 as stated fails for \<^verbatim>\<open>useCrust\<close> and \<^verbatim>\<open>getUseCrust\<close>, whose factory is the
  caller's: a factory
  that returns the same instance every time makes the access store and, once its
  readiness check passes, return the instance whose check had rejected.
\<close>

theorem registry_same_instance_counterexample:
  "useCrust same_instance ready_later \<lparr>crust = Some 0, made = 1, trace = [Construct 0]\<rparr> =
     Some (0, \<lparr>crust = Some 0, made = 2,
               trace = [Construct 0, Check 0 False, Construct 0, Check 0 True]\<rparr>)"
proof -
  let ?s = "\<lparr>crust = Some 0, made = 1, trace = [Construct 0]\<rparr>"
  have "crust ?s = Some 0" and "\<not> ready_later 0 (length (trace ?s))"
    by (simp_all add: ready_later_def)
  from useCrust_recreates
    [where newCrust = same_instance and ready = ready_later and s = ?s and c = 0, OF this]
  show ?thesis
    by (simp add: same_instance_def ready_later_def)
qed

subsection \<open>Transaction builder\<close>

text \<open>
  C8. Whatever the entry (content identifier, optional size, optional tips, type),
  once the client is ready the place-order builder returns a payload that decodes to
  a call named exactly \<^verbatim>\<open>placeStorageOrder\<close> whose memo argument is \<^verbatim>\<open>folder\<close> when
  the entry type is \<^verbatim>\<open>directory\<close> and the empty string otherwise. This holds for
  the builder of \<^verbatim>\<open>CrustNoSeed\<close> and for the one of the idle-countdown variant; the
  ledger client's decoding is taken to invert its encoding.
\<close>

theorem place_order_builder:
  assumes codec: "\<forall>tx. api_tx L (toHex L tx) = Inr tx"
  shows "(api_isReadyOrError L = Fulfilled () \<longrightarrow>
           (\<exists>payload tx. fst (getPlaceStorageOrderRaw L entry) = Fulfilled payload \<and>
              api_tx L payload = Inr tx \<and> tx_method tx = ''placeStorageOrder'' \<and>
              human_arg tx ''memo'' =
                JString (if raw_type entry = directory then ''folder'' else ''''))) \<and>
         (fst (idle_isReadyOrError net s) = Fulfilled () \<longrightarrow>
           (\<exists>payload tx.
              fst (idle_getPlaceStorageOrderRaw (toHex L) net entry s) = Fulfilled payload \<and>
              api_tx L payload = Inr tx \<and> tx_method tx = ''placeStorageOrder'' \<and>
              human_arg tx ''memo'' =
                JString (if raw_type entry = directory then ''folder'' else '''')))"
proof -
  define tx where "tx = market_placeStorageOrder (raw_cid entry)
      (case raw_size entry of None \<Rightarrow> 0 | Some n \<Rightarrow> n)
      (case raw_tips entry of None \<Rightarrow> 0 | Some t \<Rightarrow> t)
      (if raw_type entry = directory then ''folder'' else '''')"
  have name: "tx_method tx = ''placeStorageOrder''"
    by (simp add: tx_def market_placeStorageOrder_def)
  have memo: "human_arg tx ''memo'' = JString (if raw_type entry = directory then ''folder'' else '''')"
    by (simp add: tx_def market_placeStorageOrder_def human_arg_def)
  have decoded: "api_tx L (toHex L tx) = Inr tx"
    using codec by simp
  have plain: "fst (getPlaceStorageOrderRaw L entry) = Fulfilled (toHex L tx)"
    if "api_isReadyOrError L = Fulfilled ()"
    using that by (simp add: getPlaceStorageOrderRaw_def isReadyOrError_def await_simps Let_def tx_def)
  have idle: "fst (idle_getPlaceStorageOrderRaw (toHex L) net entry s) = Fulfilled (toHex L tx)"
    if "fst (idle_isReadyOrError net s) = Fulfilled ()"
  proof -
    from that obtain s1 where "idle_isReadyOrError net s = (Fulfilled (), s1)"
      by (cases "idle_isReadyOrError net s") simp
    then show ?thesis
      by (simp add: idle_getPlaceStorageOrderRaw_def Let_def tx_def)
  qed
  from plain idle name memo decoded show ?thesis
    by blast
qed

theorem place_order_builder_witness:
  "(\<exists>payload tx. fst (getPlaceStorageOrderRaw (mock_ledger [] None) sample_raw_entry) = Fulfilled payload \<and>
      api_tx (mock_ledger [] None) payload = Inr tx \<and> tx_method tx = ''placeStorageOrder'' \<and>
      human_arg tx ''memo'' = JString ''folder'') \<and>
   (\<exists>payload tx.
      fst (idle_getPlaceStorageOrderRaw (toHex (mock_ledger [] None)) None sample_raw_entry
             (new_CrustNoSeed 0)) = Fulfilled payload \<and>
      api_tx (mock_ledger [] None) payload = Inr tx \<and> tx_method tx = ''placeStorageOrder'' \<and>
      human_arg tx ''memo'' = JString ''folder'')"
proof -
  have codec: "\<forall>tx. api_tx (mock_ledger [] None) (toHex (mock_ledger [] None) tx) = Inr tx"
    by (simp add: mock_ledger_def)
  have ready: "api_isReadyOrError (mock_ledger [] None) = Fulfilled ()"
    by (simp add: mock_ledger_def)
  have kind: "raw_type sample_raw_entry = directory"
    by (simp add: sample_raw_entry_def)
  from place_order_builder [OF codec, of sample_raw_entry None "new_CrustNoSeed 0"]
    ready new_CrustNoSeed_ready [of 0] kind
  show ?thesis by simp
qed

subsection \<open>Connection manager: \<^verbatim>\<open>connect\<close>\<close>

text \<open>
  C9 fails on the code of the idle-countdown variant: \<^verbatim>\<open>connect()\<close> puts a newly
  made handle in \<^verbatim>\<open>#api\<close> and never closes the one it replaces. Called while the
  connection that the constructor started is in progress, it leaves two open sockets;
  called on a manager whose readiness check has established a connection, three; called
  once more, four.
\<close>

theorem connect_leaves_transports_open:
  "map socket (live_transports (snd (connect None (new_CrustNoSeed 0)))) = [Open, Open] \<and>
   map socket (live_transports (snd (connect None connected_manager))) = [Open, Open, Open] \<and>
   map socket (live_transports (snd (connect None (snd (connect None connected_manager))))) =
     [Open, Open, Open, Open]"
proof -
  have m: "connected_manager =
      \<lparr>api = \<lparr>socket = Open, readiness = Fulfilled ()\<rparr>, countDown = 1,
       released = [\<lparr>socket = Open, readiness = Fulfilled ()\<rparr>],
       timers = [(1, 60000)], timer_ids = 2, now = 0\<rparr>"
    by (simp add: connected_manager_def idle_isReadyOrError_def new_CrustNoSeed_def
        setCountDown_def setTimeout_def clearTimeout_def isConnected_def api_isConnected_def
        new_ApiPromise_def connect_result await_isReadyOrError_def progress_def settle_def
        countDownSec_def Let_def)
  show ?thesis
    by (simp add: m connect_result live_transports_def progress_def settle_def
        new_CrustNoSeed_def setCountDown_def setTimeout_def new_ApiPromise_def Let_def)
qed

subsection \<open>Submission with a stored-order check\<close>

text \<open>
  C10. In the variant over a \<^verbatim>\<open>UnixFSEntry\<close>, \<^verbatim>\<open>placeStorageOrder\<close> first queries
  the order status of the entry's content identifier. When the query returns a value
  that is not \<^verbatim>\<open>null\<close>, the call throws \<^verbatim>\<open>File has already been stored\<close> and the
  query is the only ledger call made: nothing is built, signed or broadcast. When the
  query returns \<^verbatim>\<open>null\<close>, the place-order transaction is built, signed and
  broadcast; and any ledger call beyond the query was made only after the query had
  returned \<^verbatim>\<open>null\<close>.
\<close>

theorem stored_order_blocks_submission:
  assumes ready: "api_isReadyOrError L = Fulfilled ()"
  shows "(filesV2 L (fs_cid entry) = Fulfilled (Some stored) \<longrightarrow>
            Crust_placeStorageOrder_unixfs L entry tips =
              (Rejected (Error ''File has already been stored''), [Query (fs_cid entry)])) \<and>
         (filesV2 L (fs_cid entry) = Fulfilled None \<longrightarrow>
            (\<exists>tx. tx_method tx = ''placeStorageOrder'' \<and>
               Crust_placeStorageOrder_unixfs L entry tips =
                 (deliver placeOrderCallback (tx_signAndSend L tx),
                  [Query (fs_cid entry), Build tx, SignAndSend tx]))) \<and>
         (list_ex (\<lambda>c. c \<noteq> Query (fs_cid entry)) (snd (Crust_placeStorageOrder_unixfs L entry tips)) \<longrightarrow>
            filesV2 L (fs_cid entry) = Fulfilled None)"
proof (intro conjI impI)
  assume "filesV2 L (fs_cid entry) = Fulfilled (Some stored)"
  then show "Crust_placeStorageOrder_unixfs L entry tips =
      (Rejected (Error ''File has already been stored''), [Query (fs_cid entry)])"
    by (simp add: Crust_placeStorageOrder_unixfs_def getOrderStatus_def isReadyOrError_def ready
        await_simps)
next
  assume "filesV2 L (fs_cid entry) = Fulfilled None"
  then have "Crust_placeStorageOrder_unixfs L entry tips =
      (deliver placeOrderCallback (tx_signAndSend L
         (market_placeStorageOrder (fs_cid entry) (fs_size entry)
            (case tips of None \<Rightarrow> 0 | Some t \<Rightarrow> t)
            (if fs_type entry = ''directory'' then ''folder'' else ''''))),
       [Query (fs_cid entry),
        Build (market_placeStorageOrder (fs_cid entry) (fs_size entry)
            (case tips of None \<Rightarrow> 0 | Some t \<Rightarrow> t)
            (if fs_type entry = ''directory'' then ''folder'' else '''')),
        SignAndSend (market_placeStorageOrder (fs_cid entry) (fs_size entry)
            (case tips of None \<Rightarrow> 0 | Some t \<Rightarrow> t)
            (if fs_type entry = ''directory'' then ''folder'' else ''''))])"
    by (simp add: Crust_placeStorageOrder_unixfs_def getOrderStatus_def isReadyOrError_def ready
        await_simps Let_def)
  moreover have "tx_method (market_placeStorageOrder a b c d) = ''placeStorageOrder''" for a b c d
    by (simp add: market_placeStorageOrder_def)
  ultimately show "\<exists>tx. tx_method tx = ''placeStorageOrder'' \<and>
      Crust_placeStorageOrder_unixfs L entry tips =
        (deliver placeOrderCallback (tx_signAndSend L tx),
         [Query (fs_cid entry), Build tx, SignAndSend tx])"
    by blast
next
  assume "list_ex (\<lambda>c. c \<noteq> Query (fs_cid entry)) (snd (Crust_placeStorageOrder_unixfs L entry tips))"
  then show "filesV2 L (fs_cid entry) = Fulfilled None"
    by (cases "filesV2 L (fs_cid entry)")
      (auto simp: Crust_placeStorageOrder_unixfs_def getOrderStatus_def isReadyOrError_def ready
        await_simps Let_def split: if_splits)
qed

theorem stored_order_blocks_submission_witness:
  "Crust_placeStorageOrder_unixfs (mock_ledger [update (InBlock ''0xB1'') [ExtrinsicSuccess_event]]
       (Some sample_status)) sample_unixfs_entry None =
     (Rejected (Error ''File has already been stored''), [Query ''bafy123'']) \<and>
   (\<exists>tx. tx_method tx = ''placeStorageOrder'' \<and>
      Crust_placeStorageOrder_unixfs (mock_ledger [update (InBlock ''0xB1'') [ExtrinsicSuccess_event]]
         None) sample_unixfs_entry None =
        (deliver placeOrderCallback
           (tx_signAndSend (mock_ledger [update (InBlock ''0xB1'') [ExtrinsicSuccess_event]] None) tx),
         [Query ''bafy123'', Build tx, SignAndSend tx]))"
proof -
  let ?ups = "[update (InBlock ''0xB1'') [ExtrinsicSuccess_event]]"
  have r1: "api_isReadyOrError (mock_ledger ?ups (Some sample_status)) = Fulfilled ()"
    and r2: "api_isReadyOrError (mock_ledger ?ups None) = Fulfilled ()"
    by (simp_all add: mock_ledger_def)
  have q1: "filesV2 (mock_ledger ?ups (Some sample_status)) (fs_cid sample_unixfs_entry) =
            Fulfilled (Some sample_status)"
    and q2: "filesV2 (mock_ledger ?ups None) (fs_cid sample_unixfs_entry) = Fulfilled None"
    by (simp_all add: mock_ledger_def)
  have c: "fs_cid sample_unixfs_entry = ''bafy123''"
    by (simp add: sample_unixfs_entry_def)
  from stored_order_blocks_submission [OF r1, of sample_unixfs_entry sample_status None]
    stored_order_blocks_submission [OF r2, of sample_unixfs_entry sample_status None] q1 q2 c
  show ?thesis by simp
qed

end
